theory Spec2Isabelle
  imports Main
begin

section \<open>Data model (models/QRCode.js)\<close>

text \<open>
  A stored QR document, with the fields the scan-lifecycle code reads or writes.
  Numbers are \<open>int\<close>; a \<open>Date\<close> is its millisecond count, or the invalid date whose
  \<open>getTime()\<close> is NaN; a field that may be \<open>undefined\<close> or \<open>null\<close> is an option.
  Strings are lists of code units below 256. The fields \<open>qrImage\<close>, \<open>createdAt\<close>,
  \<open>customization\<close> and \<open>tags\<close> are never read by the code modelled here and are left out.

  The schema declares \<open>devices: [{ type: String, count: Number }]\<close>. The key \<open>type\<close>
  is the type declaration of the library and no other type key is configured, so
  \<open>devices\<close> is an array of strings, not of \<open>{type, count}\<close> entries.

  An identifier is the 24-digit hexadecimal string of an \<open>ObjectId\<close>. A store call with
  another string raises a cast error; this is one of the ways a call is rejected.
\<close>

type_synonym oid = string
type_synonym timestamp = int

datatype jsdate = Date timestamp | InvalidDate

record location =
  loc_country :: "string option"
  loc_city :: "string option"
  loc_timestamp :: timestamp

record analytics_t =
  scanCount :: int
  lastScanned :: "timestamp option"
  scanLocations :: "location list"
  devices :: "string list"

record security_t =
  password :: "string option"
  isPasswordProtected :: bool
  expiresAt :: "jsdate option"
  maxScans :: int

record qrcode =
  oid :: oid
  userId :: string
  qr_text :: string
  qrType :: string
  analytics :: analytics_t
  security :: security_t
  isExpired :: bool

section \<open>Expiration policy (utils/analytics.js, isQrCodeExpired)\<close>

text \<open>
  \<open>now > expiry\<close> on two dates compares their time values; the source also asks that
  the expiry is not the invalid date. The clock read \<open>new Date()\<close> is the parameter \<open>now\<close>.
\<close>

fun date_passed :: "timestamp \<Rightarrow> jsdate option \<Rightarrow> bool" where
  "date_passed now None = False"
| "date_passed now (Some InvalidDate) = False"
| "date_passed now (Some (Date expiry)) = (now > expiry)"

definition limit_reached :: "qrcode \<Rightarrow> bool" where
  "limit_reached qrCode =
     (maxScans (security qrCode) > 0 \<and>
      scanCount (analytics qrCode) \<ge> maxScans (security qrCode))"

fun isQrCodeExpired :: "timestamp \<Rightarrow> qrcode option \<Rightarrow> bool" where
  "isQrCodeExpired now None = True"
| "isQrCodeExpired now (Some qrCode) =
     (if isExpired qrCode then True
      else if date_passed now (expiresAt (security qrCode)) then True
      else if limit_reached qrCode then True
      else False)"

section \<open>JavaScript string operations\<close>

text \<open>
  \<open>toLowerCase\<close> on code units below 256 shifts \<open>A\<close>--\<open>Z\<close> and the Latin-1 capitals
  (192--214, 216--222) up by 32 and leaves every other unit alone. In those ranges bit 5
  is clear, so adding 32 is setting bit 5.
\<close>

fun toLowerCase_char :: "char \<Rightarrow> char" where
  "toLowerCase_char (Char b0 b1 b2 b3 b4 b5 b6 b7) =
     (let n = (of_char (Char b0 b1 b2 b3 b4 b5 b6 b7) :: nat) in
      if (65 \<le> n \<and> n \<le> 90) \<or> (192 \<le> n \<and> n \<le> 214) \<or> (216 \<le> n \<and> n \<le> 222)
      then Char b0 b1 b2 b3 b4 True b6 b7
      else Char b0 b1 b2 b3 b4 b5 b6 b7)"

definition toLowerCase :: "string \<Rightarrow> string" where
  "toLowerCase s = map toLowerCase_char s"

fun startsWith :: "string \<Rightarrow> string \<Rightarrow> bool" where
  "startsWith s [] = True"
| "startsWith [] (p # ps) = False"
| "startsWith (c # cs) (p # ps) = (c = p \<and> startsWith cs ps)"

text \<open>\<open>s.includes(sub)\<close>: \<open>sub\<close> occurs in \<open>s\<close> as a contiguous run.\<close>

fun str_includes :: "string \<Rightarrow> string \<Rightarrow> bool" where
  "str_includes [] sub = (sub = [])"
| "str_includes (c # cs) sub = (startsWith (c # cs) sub \<or> str_includes cs sub)"

text \<open>
  \<open>trim\<close> removes white space and line terminators at both ends; below 256 these are
  TAB, LF, VT, FF, CR, SPACE and NBSP.
\<close>

definition isWhiteSpace :: "char \<Rightarrow> bool" where
  "isWhiteSpace c = (of_char c \<in> {9, 10, 11, 12, 13, 32, 160 :: nat})"

definition trim :: "string \<Rightarrow> string" where
  "trim s = rev (dropWhile isWhiteSpace (rev (dropWhile isWhiteSpace s)))"

section \<open>Device classification (utils/analytics.js, recordScan, lines 50--79)\<close>

text \<open>
  The source assigns \<open>deviceType\<close> in an if/else-if chain over the lower-cased user
  agent, then, when it is still \<open>unknown\<close>, in a second chain.
\<close>

definition deviceType_chain :: "string \<Rightarrow> string" where
  "deviceType_chain ua =
     (if str_includes ua ''iphone'' \<or> str_includes ua ''ipad'' then ''ios''
      else if str_includes ua ''android'' then ''android''
      else if str_includes ua ''windows phone'' then ''windows phone''
      else if str_includes ua ''macintosh'' \<or> str_includes ua ''mac os'' then ''mac''
      else if str_includes ua ''windows'' then ''windows''
      else if str_includes ua ''linux'' then ''linux''
      else ''unknown'')"

definition deviceType :: "string \<Rightarrow> string" where
  "deviceType agent =
     (let ua = toLowerCase agent;
          deviceType = deviceType_chain ua
      in if deviceType = ''unknown'' then
           (if str_includes ua ''mobile'' \<or> str_includes ua ''tablet'' then ''mobile''
            else if str_includes ua ''windows'' \<or> str_includes ua ''macintosh''
                    \<or> str_includes ua ''linux'' then ''desktop''
            else deviceType)
         else deviceType)"

text \<open>
  The classification as the specification words it: an ordered table of marker lists
  and labels, the first row with a marker that occurs in the user agent wins, and the
  default is \<open>unknown\<close>.
\<close>

fun first_match :: "(string list \<times> string) list \<Rightarrow> string \<Rightarrow> string \<Rightarrow> string" where
  "first_match [] dflt ua = dflt"
| "first_match ((markers, label) # rules) dflt ua =
     (if list_ex (str_includes ua) markers then label else first_match rules dflt ua)"

definition device_rules :: "(string list \<times> string) list" where
  "device_rules =
     [([''iphone'', ''ipad''], ''ios''),
      ([''android''], ''android''),
      ([''windows phone''], ''windows phone''),
      ([''macintosh'', ''mac os''], ''mac''),
      ([''windows''], ''windows''),
      ([''linux''], ''linux''),
      ([''mobile'', ''tablet''], ''mobile''),
      ([''windows'', ''macintosh'', ''linux''], ''desktop'')]"

section \<open>The document store\<close>

text \<open>
  The collection is the list of its documents in query order. The store keeps at most
  one document per \<open>_id\<close>, so every operation keyed by \<open>_id\<close> addresses the first
  document of the list with that identifier. A call to the store can be rejected; which
  calls are rejected is a parameter of each operation that makes them.
\<close>

type_synonym store = "qrcode list"

definition findById :: "store \<Rightarrow> oid \<Rightarrow> qrcode option" where
  "findById db i = find (\<lambda>q. oid q = i) db"

fun updateById :: "oid \<Rightarrow> (qrcode \<Rightarrow> qrcode) \<Rightarrow> store \<Rightarrow> store" where
  "updateById i f [] = []"
| "updateById i f (q # qs) = (if oid q = i then f q # qs else q # updateById i f qs)"

text \<open>The pre-save hook of the schema (models/QRCode.js, lines 88--112).\<close>

definition pre_save :: "qrcode \<Rightarrow> qrcode" where
  "pre_save this =
     (let s0 = security this;
          s1 = (if \<not> isPasswordProtected s0 then s0\<lparr>password := Some ''''\<rparr> else s0);
          s2 = (if maxScans s1 < 0 then s1\<lparr>maxScans := 0\<rparr> else s1);
          s3 = (case expiresAt s2 of
                  Some InvalidDate \<Rightarrow> s2\<lparr>expiresAt := None\<rparr>
                | _ \<Rightarrow> s2)
      in this\<lparr>security := s3\<rparr>)"

text \<open>
  \<open>doc.save()\<close> runs the hook and writes the document: over the stored one with its
  \<open>_id\<close>, or as a new document at the end of the collection.
\<close>

definition save :: "qrcode \<Rightarrow> store \<Rightarrow> store" where
  "save doc db =
     (case findById db (oid doc) of
        None \<Rightarrow> db @ [pre_save doc]
      | Some _ \<Rightarrow> updateById (oid doc) (\<lambda>_. pre_save doc) db)"

section \<open>Scan recorder (utils/analytics.js, recordScan)\<close>

record scanData =
  userAgent :: "string option"
  ip :: "string option"
  referer :: "string option"
  country :: "string option"
  city :: "string option"

text \<open>The store calls of \<open>recordScan\<close>, in program order, and its errors.\<close>

datatype dbcall = FindById | Save | FindByIdAndUpdate | FindOne | UpdateOne

datatype error = StoreError dbcall | DeviceUpdateRejected

text \<open>
  The three clock reads of one call: in \<open>isQrCodeExpired\<close>, for \<open>lastScanned\<close> and for
  the timestamp of the location entry.
\<close>

record clock =
  t_check :: timestamp
  t_lastScanned :: timestamp
  t_location :: timestamp

text \<open>
  \<open>country = "Unknown"\<close> in the destructuring replaces \<open>undefined\<close>, and
  \<open>country || "Unknown"\<close> replaces every other falsy value.
\<close>

definition or_unknown :: "string option \<Rightarrow> string" where
  "or_unknown v = (case v of None \<Rightarrow> ''Unknown'' | Some s \<Rightarrow> if s = [] then ''Unknown'' else s)"

text \<open>
  The update document of \<open>findByIdAndUpdate\<close> (lines 88--110): \<open>$inc\<close>, \<open>$set\<close> and
  \<open>$push\<close> act on the stored document; the value set into \<open>isExpired\<close> is computed
  from \<open>qrCode\<close>, the document read at the start of the call.
\<close>

definition scan_update :: "clock \<Rightarrow> qrcode \<Rightarrow> string \<Rightarrow> string \<Rightarrow> qrcode \<Rightarrow> qrcode" where
  "scan_update clk qrCode loc_c loc_t doc =
     doc\<lparr>analytics := (analytics doc)
            \<lparr>scanCount := scanCount (analytics doc) + 1,
             lastScanned := Some (t_lastScanned clk),
             scanLocations := scanLocations (analytics doc) @
               [\<lparr>loc_country = Some loc_c, loc_city = Some loc_t,
                 loc_timestamp = t_location clk\<rparr>]\<rparr>,
         isExpired := (maxScans (security qrCode) > 0 \<and>
                       scanCount (analytics qrCode) + 1 \<ge> maxScans (security qrCode))\<rparr>"

text \<open>
  The call of \<open>findByIdAndUpdate\<close> on the store: the second half of a scan, with
  \<open>qrCode\<close> the document that the first half read.
\<close>

definition scan_write :: "clock \<Rightarrow> qrcode \<Rightarrow> oid \<Rightarrow> scanData \<Rightarrow> store \<Rightarrow> store" where
  "scan_write clk qrCode qrCodeId sd db =
     updateById qrCodeId
       (scan_update clk qrCode (or_unknown (country sd)) (or_unknown (city sd))) db"

text \<open>
  The body of the \<open>try\<close> block. It returns the outcome and the store as the calls made
  so far have left it: a rejected call leaves the earlier writes in place.

  The device step (lines 112--140) asks with a filter on \<open>analytics.devices.type\<close>
  whether an entry exists and then updates. Both updates raise, whatever the answer:
  the \<open>$inc\<close> of \<open>analytics.devices.$.count\<close> is cast to the string \<open>"1"\<close> for an array
  of strings and the store refuses to increment by a string; the \<open>$push\<close> of the object
  \<open>{type, count}\<close> onto an array of strings is a cast error. So the step ends the body
  with an error and writes nothing, and the final read (lines 142--151) is never reached.
  The device type (lines 50--79, \<open>deviceType\<close> above) is used by this step only.
\<close>

definition recordScan_try ::
  "clock \<Rightarrow> (dbcall \<Rightarrow> bool) \<Rightarrow> oid \<Rightarrow> scanData \<Rightarrow> store \<Rightarrow> (error + qrcode option) \<times> store" where
  "recordScan_try clk fails qrCodeId sd db =
     (if fails FindById then (Inl (StoreError FindById), db)
      else case findById db qrCodeId of
        None \<Rightarrow> (Inr None, db)
      | Some qrCode \<Rightarrow>
          if isQrCodeExpired (t_check clk) (Some qrCode) then
            (if fails Save then (Inl (StoreError Save), db)
             else (Inr None, save (qrCode\<lparr>isExpired := True\<rparr>) db))
          else
            if fails FindByIdAndUpdate then (Inl (StoreError FindByIdAndUpdate), db)
            else
              let db1 = scan_write clk qrCode qrCodeId sd db in
              if fails FindOne then (Inl (StoreError FindOne), db1)
              else if fails UpdateOne then (Inl (StoreError UpdateOne), db1)
              else (Inl DeviceUpdateRejected, db1))"

text \<open>The \<open>catch\<close> clause turns every error into the result \<open>null\<close>.\<close>

definition recordScan ::
  "clock \<Rightarrow> (dbcall \<Rightarrow> bool) \<Rightarrow> oid \<Rightarrow> scanData \<Rightarrow> store \<Rightarrow> qrcode option \<times> store" where
  "recordScan clk fails qrCodeId sd db =
     (case recordScan_try clk fails qrCodeId sd db of
        (Inl err, db') \<Rightarrow> (None, db')
      | (Inr result, db') \<Rightarrow> (result, db'))"

section \<open>Scan and password routes (routes/analytics.js, routes/track.js)\<close>

text \<open>What the routes read of a request: two headers and the client address.\<close>

record request =
  header_user_agent :: "string option"
  header_referer :: "string option"
  req_ip :: "string option"

text \<open>
  \<open>GET /api/analytics/track/:qrCodeId/:trackingId\<close> (routes/analytics.js, lines 16--76).
  \<open>lookup_fails\<close> says that the route's own \<open>findById\<close> is rejected, \<open>now\<close> is the clock
  read of its expiration check; \<open>clk\<close> and \<open>fails\<close> belong to the \<open>recordScan\<close> call.
\<close>

datatype track_response =
    Track_NotFound
  | Track_Expired
  | Track_ExpiredOrMax
  | Track_RequiresPassword oid string
  | Track_Success string string int int
  | Track_ServerError

definition track_scan ::
  "timestamp \<Rightarrow> bool \<Rightarrow> clock \<Rightarrow> (dbcall \<Rightarrow> bool) \<Rightarrow> oid \<Rightarrow> string \<Rightarrow> request \<Rightarrow> store
     \<Rightarrow> track_response \<times> store" where
  "track_scan now lookup_fails clk fails qrCodeId trackingId req db =
     (if lookup_fails then (Track_ServerError, db)
      else case findById db qrCodeId of
        None \<Rightarrow> (Track_NotFound, db)
      | Some qrCode \<Rightarrow>
          if isQrCodeExpired now (Some qrCode) then (Track_Expired, db)
          else
            let sd = \<lparr>userAgent = header_user_agent req, ip = req_ip req,
                      referer = header_referer req,
                      country = Some ''Unknown'', city = Some ''Unknown''\<rparr>;
                (updatedQrCode, db') = recordScan clk fails qrCodeId sd db
            in case updatedQrCode of
                 None \<Rightarrow> (Track_ExpiredOrMax, db')
               | Some u \<Rightarrow>
                   if isPasswordProtected (security u)
                   then (Track_RequiresPassword qrCodeId trackingId, db')
                   else (Track_Success (qr_text u) (qrType u) (scanCount (analytics u))
                           (maxScans (security u)), db'))"

text \<open>
  \<open>POST /api/analytics/verify-password/:qrCodeId\<close> (routes/analytics.js, lines 79--179).
  The submitted \<open>password\<close> of the body is absent or another falsy value that is not a
  string, a string, or a truthy value that is not a string. \<open>.trim()\<close> on a stored
  password that is \<open>undefined\<close>, or on a submitted value that is not a string, raises a
  TypeError, which the route's \<open>catch\<close> answers with status 500.
\<close>

datatype submitted = Missing | Text string | NotText

fun truthy :: "submitted \<Rightarrow> bool" where
  "truthy Missing = False"
| "truthy (Text p) = (p \<noteq> [])"
| "truthy NotText = True"

datatype verify_response =
    Verify_NotFound
  | Verify_NotProtected
  | Verify_Expired
  | Verify_LimitReached
  | Verify_PasswordRequired
  | Verify_InvalidPassword
  | Verify_Success string string string int int
  | Verify_ServerError

definition verify_scanData :: "request \<Rightarrow> scanData" where
  "verify_scanData req =
     \<lparr>userAgent = header_user_agent req, ip = req_ip req, referer = header_referer req,
      country = None, city = None\<rparr>"

definition verify_password ::
  "timestamp \<Rightarrow> bool \<Rightarrow> clock \<Rightarrow> (dbcall \<Rightarrow> bool) \<Rightarrow> oid \<Rightarrow> submitted \<Rightarrow> request \<Rightarrow> store
     \<Rightarrow> verify_response \<times> store" where
  "verify_password now lookup_fails clk fails qrCodeId pw req db =
     (if lookup_fails then (Verify_ServerError, db)
      else case findById db qrCodeId of
        None \<Rightarrow> (Verify_NotFound, db)
      | Some qrCode \<Rightarrow>
          if \<not> isPasswordProtected (security qrCode) then (Verify_NotProtected, db)
          else if date_passed now (expiresAt (security qrCode)) then (Verify_Expired, db)
          else if limit_reached qrCode then (Verify_LimitReached, db)
          else if \<not> truthy pw then (Verify_PasswordRequired, db)
          else case password (security qrCode) of
            None \<Rightarrow> (Verify_ServerError, db)
          | Some stored \<Rightarrow>
              (case pw of
                 Text p \<Rightarrow>
                   let storedPassword = trim stored;
                       submittedPassword = trim p
                   in if storedPassword \<noteq> submittedPassword then (Verify_InvalidPassword, db)
                      else
                        let db' = snd (recordScan clk fails qrCodeId (verify_scanData req) db)
                        in (Verify_Success (qr_text qrCode) (qr_text qrCode) (qrType qrCode)
                              (scanCount (analytics qrCode)) (maxScans (security qrCode)), db')
               | _ \<Rightarrow> (Verify_ServerError, db)))"

text \<open>
  \<open>GET /track/:qrCodeId/:trackingId\<close> (routes/track.js in the source tree, lines
  237--476 of the routes file). \<open>geo\<close> is the answer of the address lookup, a country and
  a city, or nothing; \<open>now\<close> and \<open>now2\<close> are the clock reads of the route's date check
  and of its later call of \<open>isQrCodeExpired\<close>. A request without an address raises a
  TypeError at \<open>ip.replace\<close>.
\<close>

datatype page =
    Page_NotFound
  | Page_Expired
  | Page_LimitReached
  | Page_PasswordForm oid string
  | Page_ExpiredOrLimit
  | Page_VerifyFile
  | Page_Redirect string
  | Page_Error

definition strip_mapped_prefix :: "string \<Rightarrow> string" where
  "strip_mapped_prefix a = (if startsWith a ''::ffff:'' then drop 7 a else a)"

definition track_redirect ::
  "timestamp \<Rightarrow> timestamp \<Rightarrow> bool \<Rightarrow> (string \<times> string) option \<Rightarrow> clock \<Rightarrow> (dbcall \<Rightarrow> bool)
     \<Rightarrow> oid \<Rightarrow> string \<Rightarrow> request \<Rightarrow> store \<Rightarrow> page \<times> store" where
  "track_redirect now now2 lookup_fails geo clk fails qrCodeId trackingId req db =
     (if lookup_fails then (Page_Error, db)
      else case findById db qrCodeId of
        None \<Rightarrow> (Page_NotFound, db)
      | Some qrCode \<Rightarrow>
          if date_passed now (expiresAt (security qrCode)) then (Page_Expired, db)
          else if limit_reached qrCode then (Page_LimitReached, db)
          else if isPasswordProtected (security qrCode)
            then (Page_PasswordForm (oid qrCode) trackingId, db)
          else if isQrCodeExpired now2 (Some qrCode) then (Page_ExpiredOrLimit, db)
          else if isPasswordProtected (security qrCode) then (Page_VerifyFile, db)
          else case req_ip req of
            None \<Rightarrow> (Page_Error, db)
          | Some a \<Rightarrow>
              let ip = strip_mapped_prefix a;
                  locationData = (case geo of
                                    None \<Rightarrow> (Some ''Unknown'', Some ''Unknown'')
                                  | Some (c, t) \<Rightarrow> (Some c, Some t));
                  sd = \<lparr>userAgent = header_user_agent req, ip = Some ip,
                        referer = header_referer req,
                        country = fst locationData, city = snd locationData\<rparr>;
                  db' = snd (recordScan clk fails qrCodeId sd db)
              in (Page_Redirect (qr_text qrCode), db'))"

section \<open>User edit route (PUT /:id, lines 737--763 of the routes file)\<close>

text \<open>
  The request body is the update document: a list of paths of the schema with the value
  to set. \<open>findOneAndUpdate\<close> applies it to the document with the identifier when the
  user owns it; it is a query, so the pre-save hook of the schema does not run. The
  setters of the schema do run on the values of a query update: the setter of
  \<open>expiresAt\<close> turns a value that is no valid date into \<open>null\<close>, the setter of
  \<open>maxScans\<close> turns a negative number into 0. The route deletes \<open>userId\<close> from the
  body, so this path is not among the updates.
\<close>

datatype field_update =
    Set_text string
  | Set_qrType string
  | Set_password "string option"
  | Set_isPasswordProtected bool
  | Set_expiresAt "jsdate option"
  | Set_maxScans int
  | Set_isExpired bool

fun apply_update :: "field_update \<Rightarrow> qrcode \<Rightarrow> qrcode" where
  "apply_update (Set_text v) d = d\<lparr>qr_text := v\<rparr>"
| "apply_update (Set_qrType v) d = d\<lparr>qrType := v\<rparr>"
| "apply_update (Set_password v) d = d\<lparr>security := (security d)\<lparr>password := v\<rparr>\<rparr>"
| "apply_update (Set_isPasswordProtected v) d =
     d\<lparr>security := (security d)\<lparr>isPasswordProtected := v\<rparr>\<rparr>"
| "apply_update (Set_expiresAt v) d =
     d\<lparr>security := (security d)
          \<lparr>expiresAt := (case v of Some (Date ms) \<Rightarrow> Some (Date ms) | _ \<Rightarrow> None)\<rparr>\<rparr>"
| "apply_update (Set_maxScans v) d = d\<lparr>security := (security d)\<lparr>maxScans := max 0 v\<rparr>\<rparr>"
| "apply_update (Set_isExpired v) d = d\<lparr>isExpired := v\<rparr>"

datatype update_response = Update_Ok qrcode | Update_NotFound | Update_ServerError

definition update_qrcode ::
  "bool \<Rightarrow> oid \<Rightarrow> string \<Rightarrow> field_update list \<Rightarrow> store \<Rightarrow> update_response \<times> store" where
  "update_qrcode query_fails i uid updateData db =
     (if query_fails then (Update_ServerError, db)
      else case findById db i of
        None \<Rightarrow> (Update_NotFound, db)
      | Some d \<Rightarrow>
          if userId d \<noteq> uid then (Update_NotFound, db)
          else
            let qrCode = fold apply_update updateData d
            in (Update_Ok qrCode, updateById i (\<lambda>_. qrCode) db))"

text \<open>The invariant of the data model: a password is stored only under protection.\<close>

definition password_consistent :: "qrcode \<Rightarrow> bool" where
  "password_consistent d =
     (if isPasswordProtected (security d) then True
      else password (security d) = None \<or> password (security d) = Some [])"

section \<open>Analytics aggregation (utils/analytics.js, getAnalytics)\<close>

text \<open>
  The summary object. \<open>scansByDevice\<close> and \<open>scansByLocation\<close> are objects used as
  dictionaries from a label to a number; labels are taken not to be property names that
  every object inherits. \<open>scansByDate\<close> is created empty and never written. A number
  of \<open>scansByDevice\<close> can be NaN.
\<close>

datatype jsnumber = Number int | NaN

record most_scanned =
  ms_id :: oid
  ms_text :: string
  ms_scanCount :: int

record summary =
  totalQrCodes :: nat
  totalScans :: int
  scansByDate :: "string \<rightharpoonup> int"
  scansByDevice :: "string \<rightharpoonup> jsnumber"
  scansByLocation :: "string \<rightharpoonup> int"
  mostScanned :: "most_scanned option"

datatype analytics_result = Analytics_Block analytics_t | Analytics_Summary summary

text \<open>An argument is given when it is truthy: not \<open>null\<close> and not the empty string.\<close>

definition id_given :: "string option \<Rightarrow> bool" where
  "id_given v = (case v of None \<Rightarrow> False | Some s \<Rightarrow> s \<noteq> [])"

text \<open>The entry of a dictionary read as a number, \<open>undefined\<close> counting as falsy like 0.\<close>

definition entry :: "(string \<rightharpoonup> int) \<Rightarrow> string \<Rightarrow> int" where
  "entry m k = (case m k of None \<Rightarrow> 0 | Some n \<Rightarrow> n)"

text \<open>
  The two inner \<open>forEach\<close> bodies (lines 256--270). A device entry is a string, so
  \<open>device.type\<close> and \<open>device.count\<close> are \<open>undefined\<close>: the key is the string
  \<open>undefined\<close>, the entry is set to 0 when it is falsy (absent, 0 or NaN), and a number
  plus \<open>undefined\<close> is NaN.
\<close>

definition count_device :: "(string \<rightharpoonup> jsnumber) \<Rightarrow> string \<Rightarrow> (string \<rightharpoonup> jsnumber)" where
  "count_device m device =
     (let key = ''undefined'';
          m1 = (case m key of
                  Some (Number n) \<Rightarrow> if n = 0 then m(key \<mapsto> Number 0) else m
                | _ \<Rightarrow> m(key \<mapsto> Number 0))
      in m1(key \<mapsto> NaN))"

definition count_location :: "(string \<rightharpoonup> int) \<Rightarrow> location \<Rightarrow> (string \<rightharpoonup> int)" where
  "count_location m l =
     (let key = or_unknown (loc_country l);
          m1 = (if entry m key = 0 then m(key \<mapsto> 0) else m)
      in m1(key \<mapsto> entry m1 key + 1))"

text \<open>
  The body of the outer \<open>forEach\<close> (lines 241--271) on the pair of the summary and the
  local \<open>maxScans\<close>. \<open>scanCount\<close> is a number, so \<open>scanCount || 0\<close> is \<open>scanCount\<close>.
\<close>

definition aggregate_qr :: "summary \<times> int \<Rightarrow> qrcode \<Rightarrow> summary \<times> int" where
  "aggregate_qr st qr =
     (let a0 = fst st;
          maxScans0 = snd st;
          a1 = a0\<lparr>totalScans := totalScans a0 + scanCount (analytics qr)\<rparr>;
          found = (scanCount (analytics qr) > maxScans0);
          maxScans1 = (if found then scanCount (analytics qr) else maxScans0);
          a2 = (if found
                then a1\<lparr>mostScanned := Some \<lparr>ms_id = oid qr, ms_text = qr_text qr,
                                              ms_scanCount = scanCount (analytics qr)\<rparr>\<rparr>
                else a1);
          a3 = a2\<lparr>scansByDevice := foldl count_device (scansByDevice a2)
                                      (devices (analytics qr))\<rparr>;
          a4 = a3\<lparr>scansByLocation := foldl count_location (scansByLocation a3)
                                        (scanLocations (analytics qr))\<rparr>
      in (a4, maxScans1))"

text \<open>
  \<open>find_fails\<close> says that the query is rejected; the \<open>catch\<close> clause then returns
  \<open>null\<close>.
\<close>

definition getAnalytics ::
  "bool \<Rightarrow> string option \<Rightarrow> string option \<Rightarrow> store \<Rightarrow> analytics_result option" where
  "getAnalytics find_fails qrCodeId uid db =
     (if \<not> id_given qrCodeId \<and> \<not> id_given uid then None
      else if find_fails then None
      else
        let qrCodes = (if id_given qrCodeId
                       then filter (\<lambda>q. Some (oid q) = qrCodeId) db
                       else filter (\<lambda>q. Some (userId q) = uid) db)
        in if id_given qrCodeId then
             (case qrCodes of
                [] \<Rightarrow> None
              | q # _ \<Rightarrow> Some (Analytics_Block (analytics q)))
           else
             let a = \<lparr>totalQrCodes = length qrCodes, totalScans = 0,
                      scansByDate = Map.empty, scansByDevice = Map.empty,
                      scansByLocation = Map.empty, mostScanned = None\<rparr>
             in Some (Analytics_Summary (fst (foldl aggregate_qr (a, 0) qrCodes))))"

fun summary_of :: "analytics_result option \<Rightarrow> summary option" where
  "summary_of (Some (Analytics_Summary s)) = Some s"
| "summary_of _ = None"

definition most_scanned_of :: "qrcode \<Rightarrow> most_scanned" where
  "most_scanned_of qr =
     \<lparr>ms_id = oid qr, ms_text = qr_text qr, ms_scanCount = scanCount (analytics qr)\<rparr>"

definition unscanned_qr :: qrcode where
  "unscanned_qr =
     \<lparr>oid = ''64b7f3a2c1d4e5f6a7b8c9d1'', userId = ''u1'', qr_text = ''https://example.org/new'', qrType = ''url'',
      analytics = \<lparr>scanCount = 0, lastScanned = None, scanLocations = [], devices = []\<rparr>,
      security = \<lparr>password = Some [], isPasswordProtected = False, expiresAt = None,
                  maxScans = 0\<rparr>,
      isExpired = False\<rparr>"

section \<open>Sample data\<close>

definition no_faults :: "dbcall \<Rightarrow> bool" where
  "no_faults c = False"

definition example_qr :: qrcode where
  "example_qr =
     \<lparr>oid = ''64b7f3a2c1d4e5f6a7b8c9d0'', userId = ''u1'', qr_text = ''https://example.org/a'', qrType = ''url'',
      analytics = \<lparr>scanCount = 2, lastScanned = None, scanLocations = [], devices = []\<rparr>,
      security = \<lparr>password = Some [], isPasswordProtected = False, expiresAt = None,
                  maxScans = 3\<rparr>,
      isExpired = False\<rparr>"

definition expiring_qr :: qrcode where
  "expiring_qr =
     example_qr\<lparr>security := \<lparr>password = Some [], isPasswordProtected = False,
                              expiresAt = Some (Date 1000), maxScans = 0\<rparr>\<rparr>"

definition early_clock :: clock where
  "early_clock = \<lparr>t_check = 999, t_lastScanned = 1003, t_location = 1003\<rparr>"

definition late_clock :: clock where
  "late_clock = \<lparr>t_check = 1001, t_lastScanned = 1001, t_location = 1001\<rparr>"

definition example_clock :: clock where
  "example_clock = \<lparr>t_check = 1000, t_lastScanned = 1001, t_location = 1002\<rparr>"

definition example_scan :: scanData where
  "example_scan =
     \<lparr>userAgent = Some ''Mozilla/5.0 (iPhone; CPU iPhone OS 16_0 like Mac OS X)'',
      ip = Some ''203.0.113.7'', referer = None, country = None, city = Some []\<rparr>"

definition protected_qr :: qrcode where
  "protected_qr =
     example_qr\<lparr>security := \<lparr>password = Some ''abc'', isPasswordProtected = True,
                              expiresAt = None, maxScans = 0\<rparr>\<rparr>"

definition example_request :: request where
  "example_request =
     \<lparr>header_user_agent = Some ''Mozilla/5.0 (Linux; Android 14)'', header_referer = None,
      req_ip = Some ''::ffff:203.0.113.7''\<rparr>"

definition flagged_qr :: qrcode where
  "flagged_qr = protected_qr\<lparr>isExpired := True\<rparr>"

definition scanned_qr :: "oid \<Rightarrow> int \<Rightarrow> qrcode" where
  "scanned_qr i n = example_qr\<lparr>oid := i, analytics := (analytics example_qr)\<lparr>scanCount := n\<rparr>\<rparr>"

definition three_qrs :: store where
  "three_qrs = [scanned_qr ''64b7f3a2c1d4e5f6a7b8c9a1'' 5, scanned_qr ''64b7f3a2c1d4e5f6a7b8c9a2'' 12, scanned_qr ''64b7f3a2c1d4e5f6a7b8c9a3'' 3]"

section \<open>Properties of the expiration policy\<close>

lemma date_passed_iff:
  "date_passed now d = (\<exists>t. d = Some (Date t) \<and> t < now)"
  by (cases "(now, d)" rule: date_passed.cases) auto

text \<open>
  Claim C1. \<open>isQrCodeExpired\<close> returns true exactly when the record is missing, or its
  \<open>isExpired\<close> flag is set, or \<open>expiresAt\<close> is a valid date strictly before the current
  time, or \<open>maxScans > 0\<close> and \<open>scanCount \<ge> maxScans\<close>; false in every other case. With
  \<open>maxScans = 0\<close> the result does not depend on \<open>scanCount\<close>: it is true only through
  the flag or the date. The function is a pure function of the clock and the record: it
  returns a boolean and no record.
\<close>

theorem isQrCodeExpired_exact:
  "isQrCodeExpired now r =
     (case r of
        None \<Rightarrow> True
      | Some q \<Rightarrow>
          isExpired q
          \<or> (\<exists>t. expiresAt (security q) = Some (Date t) \<and> t < now)
          \<or> (0 < maxScans (security q) \<and> maxScans (security q) \<le> scanCount (analytics q)))
   \<and> (\<forall>q n. r = Some q \<and> maxScans (security q) = 0 \<longrightarrow>
         isQrCodeExpired now (Some (q\<lparr>analytics := (analytics q)\<lparr>scanCount := n\<rparr>\<rparr>))
           = (isExpired q \<or> (\<exists>t. expiresAt (security q) = Some (Date t) \<and> t < now)))"
  by (cases r) (auto simp: date_passed_iff limit_reached_def)

theorem isQrCodeExpired_exact_witness:
  "isQrCodeExpired 100 (Some \<lparr>oid = ''64b7f3a2c1d4e5f6a7b8c9d0'', userId = ''u'', qr_text = ''https://a.example'',
       qrType = ''url'',
       analytics = \<lparr>scanCount = 7, lastScanned = None, scanLocations = [], devices = []\<rparr>,
       security = \<lparr>password = Some '''', isPasswordProtected = False, expiresAt = None,
                   maxScans = 0\<rparr>,
       isExpired = False\<rparr>) = False
   \<and> isQrCodeExpired 100 (Some \<lparr>oid = ''64b7f3a2c1d4e5f6a7b8c9d0'', userId = ''u'', qr_text = ''https://a.example'',
       qrType = ''url'',
       analytics = \<lparr>scanCount = 500, lastScanned = None, scanLocations = [], devices = []\<rparr>,
       security = \<lparr>password = Some '''', isPasswordProtected = False, expiresAt = None,
                   maxScans = 0\<rparr>,
       isExpired = False\<rparr>) = False"
  using isQrCodeExpired_exact [of 100 "Some \<lparr>oid = ''64b7f3a2c1d4e5f6a7b8c9d0'', userId = ''u'',
       qr_text = ''https://a.example'', qrType = ''url'',
       analytics = \<lparr>scanCount = 7, lastScanned = None, scanLocations = [], devices = []\<rparr>,
       security = \<lparr>password = Some '''', isPasswordProtected = False, expiresAt = None,
                   maxScans = 0\<rparr>,
       isExpired = False\<rparr>"]
  by simp

section \<open>Properties of the string operations and the device classification\<close>

lemma startsWith_iff: "startsWith s p = (\<exists>post. s = p @ post)"
  by (induction s p rule: startsWith.induct) auto

lemma str_includes_iff: "str_includes s sub = (\<exists>pre post. s = pre @ sub @ post)"
proof (induction s)
  case Nil
  then show ?case by auto
next
  case (Cons c cs)
  show ?case
  proof
    assume "str_includes (c # cs) sub"
    then consider "startsWith (c # cs) sub" | "str_includes cs sub" by auto
    then show "\<exists>pre post. c # cs = pre @ sub @ post"
    proof cases
      case 1
      then obtain post where "c # cs = sub @ post" by (auto simp: startsWith_iff)
      then have "c # cs = [] @ sub @ post" by simp
      then show ?thesis by blast
    next
      case 2
      then obtain pre post where "cs = pre @ sub @ post" using Cons.IH by auto
      then have "c # cs = (c # pre) @ sub @ post" by simp
      then show ?thesis by blast
    qed
  next
    assume "\<exists>pre post. c # cs = pre @ sub @ post"
    then obtain pre post where e: "c # cs = pre @ sub @ post" by blast
    show "str_includes (c # cs) sub"
    proof (cases pre)
      case Nil
      with e have "startsWith (c # cs) sub" by (auto simp: startsWith_iff)
      then show ?thesis by simp
    next
      case (Cons a pre')
      with e have "cs = pre' @ sub @ post" by simp
      then have "str_includes cs sub" using Cons.IH by blast
      then show ?thesis by simp
    qed
  qed
qed

lemma str_includes_toLowerCase:
  assumes "str_includes s sub" and "toLowerCase sub = sub"
  shows "str_includes (toLowerCase s) sub"
proof -
  from assms(1) obtain pre post where "s = pre @ sub @ post"
    by (auto simp: str_includes_iff)
  then have "toLowerCase s = toLowerCase pre @ toLowerCase sub @ toLowerCase post"
    by (simp add: toLowerCase_def)
  with assms(2) show ?thesis by (auto simp: str_includes_iff)
qed

lemma deviceType_first_match:
  "deviceType agent = first_match device_rules ''unknown'' (toLowerCase agent)"
  by (simp add: deviceType_def deviceType_chain_def device_rules_def Let_def)

text \<open>
  Claim C7. The device type is decided by ordered substring matching on the lower-cased
  user agent, the first matching row winning, in the order iOS (iphone, ipad), Android,
  Windows Phone, Mac, Windows, Linux, then mobile/tablet, then desktop, and \<open>unknown\<close>
  when no row matches. A user agent that contains both \<open>iphone\<close> and \<open>android\<close> is
  classified \<open>ios\<close>.
\<close>

theorem deviceType_ordered:
  "deviceType agent = first_match device_rules ''unknown'' (toLowerCase agent)
   \<and> (str_includes agent ''iphone'' \<and> str_includes agent ''android''
        \<longrightarrow> deviceType agent = ''ios'')"
proof
  show "deviceType agent = first_match device_rules ''unknown'' (toLowerCase agent)"
    by (rule deviceType_first_match)
next
  show "str_includes agent ''iphone'' \<and> str_includes agent ''android''
        \<longrightarrow> deviceType agent = ''ios''"
  proof
    assume a: "str_includes agent ''iphone'' \<and> str_includes agent ''android''"
    have "toLowerCase ''iphone'' = ''iphone''" by (simp add: toLowerCase_def)
    with a have "str_includes (toLowerCase agent) ''iphone''"
      by (simp add: str_includes_toLowerCase)
    then show "deviceType agent = ''ios''"
      by (simp add: deviceType_def deviceType_chain_def Let_def)
  qed
qed

theorem deviceType_ordered_witness:
  "str_includes ''Mozilla/5.0 (iphone; like android)'' ''iphone''
   \<and> str_includes ''Mozilla/5.0 (iphone; like android)'' ''android''
   \<and> deviceType ''Mozilla/5.0 (iphone; like android)'' = ''ios''"
  using deviceType_ordered [of "''Mozilla/5.0 (iphone; like android)''"]
  by (simp add: device_rules_def toLowerCase_def)

section \<open>Properties of the store and of the scan recorder\<close>

lemma findById_oid: "findById db i = Some q \<Longrightarrow> oid q = i"
  by (auto simp: findById_def find_Some_iff)

lemma findById_Nil [simp]: "findById [] i = None"
  by (simp add: findById_def)

lemma findById_Cons:
  "findById (q # qs) i = (if oid q = i then Some q else findById qs i)"
  by (simp add: findById_def)

lemma findById_updateById:
  assumes "\<And>q. oid q = i \<Longrightarrow> oid (f q) = i"
  shows "findById (updateById i f db) j =
           (if j = i then map_option f (findById db i) else findById db j)"
  using assms by (induction db) (auto simp: findById_Cons)

lemma findById_append_new:
  "findById db (oid d) = None \<Longrightarrow>
     findById (db @ [d]) j = (if j = oid d then Some d else findById db j)"
  by (induction db) (auto simp: findById_Cons split: if_splits)

lemma oid_pre_save [simp]: "oid (pre_save d) = oid d"
  by (simp add: pre_save_def Let_def)

lemma analytics_pre_save [simp]: "analytics (pre_save d) = analytics d"
  by (simp add: pre_save_def Let_def)

lemma isExpired_pre_save [simp]: "isExpired (pre_save d) = isExpired d"
  by (simp add: pre_save_def Let_def)

lemma findById_save:
  "findById (save d db) j = (if j = oid d then Some (pre_save d) else findById db j)"
proof (cases "findById db (oid d)")
  case None
  then show ?thesis by (simp add: save_def findById_append_new)
next
  case (Some q)
  then show ?thesis by (simp add: save_def findById_updateById)
qed

lemma map_updateById_same:
  assumes "findById db i = Some q" and "g (f q) = g q"
  shows "map g (updateById i f db) = map g db"
  using assms by (induction db) (auto simp: findById_Cons split: if_splits)

lemma map_analytics_save:
  assumes "findById db (oid d) = Some q" and "analytics d = analytics q"
  shows "map analytics (save d db) = map analytics db"
  using assms by (simp add: save_def map_updateById_same [where q = q])


lemma recordScan_expired_eq:
  assumes "\<not> fails FindById" and "findById db i = Some q"
    and "isQrCodeExpired (t_check clk) (Some q)"
  shows "recordScan clk fails i sd db =
           (None, if fails Save then db else save (q\<lparr>isExpired := True\<rparr>) db)"
  using assms by (simp add: recordScan_def recordScan_try_def del: isQrCodeExpired.simps)

lemma recordScan_absent:
  assumes "findById db i = None"
  shows "recordScan clk fails i sd db = (None, db)"
  using assms by (simp add: recordScan_def recordScan_try_def)

lemma recordScan_caught:
  assumes "fst (recordScan_try clk fails i sd db) = Inl e"
  shows "fst (recordScan clk fails i sd db) = None"
  using assms by (cases "recordScan_try clk fails i sd db") (auto simp: recordScan_def)


lemma pre_save_idem: "pre_save (pre_save d) = pre_save d"
proof (cases "expiresAt (security d)")
  case None
  then show ?thesis by (simp add: pre_save_def Let_def)
next
  case (Some a)
  then show ?thesis by (cases a) (simp_all add: pre_save_def Let_def)
qed

lemma oid_scan_update [simp]: "oid (scan_update clk q c t d) = oid d"
  by (simp add: scan_update_def)

lemma findById_save_other:
  "j \<noteq> oid d \<Longrightarrow> findById (save d db) j = findById db j"
  by (simp add: findById_save)

text \<open>A call keyed by one identifier leaves every other document as it was.\<close>

lemma recordScan_other:
  assumes "j \<noteq> i"
  shows "findById (snd (recordScan clk fails i sd db)) j = findById db j"
proof (cases "findById db i")
  case None
  then show ?thesis by (simp add: recordScan_absent)
next
  case (Some q)
  then have "oid q = i" by (rule findById_oid)
  with assms Some show ?thesis
    by (simp add: recordScan_def recordScan_try_def scan_write_def Let_def
          findById_updateById findById_save del: isQrCodeExpired.simps split: option.split)
qed

lemma recordScan_keeps_expired:
  assumes "findById db i = Some q" and "isExpired q"
  shows "\<exists>q'. findById (snd (recordScan clk fails j sd db)) i = Some q' \<and> isExpired q'"
proof (cases "j = i")
  case False
  then have "findById (snd (recordScan clk fails j sd db)) i = findById db i"
    by (simp add: recordScan_other)
  with assms show ?thesis by simp
next
  case True
  have e: "isQrCodeExpired (t_check clk) (Some q)" using assms(2) by simp
  have o: "oid q = i" using assms(1) by (rule findById_oid)
  show ?thesis
  proof (cases "fails FindById")
    case True
    with assms \<open>j = i\<close> show ?thesis by (simp add: recordScan_def recordScan_try_def)
  next
    case False
    with assms e o \<open>j = i\<close> show ?thesis
      by (simp add: recordScan_expired_eq findById_save del: isQrCodeExpired.simps)
  qed
qed

lemma updateById_const_idem:
  "oid c = i \<Longrightarrow> updateById i (\<lambda>_. c) (updateById i (\<lambda>_. c) db) = updateById i (\<lambda>_. c) db"
  by (induction db) auto

lemma save_twice:
  assumes "findById db (oid d) = Some q"
  shows "save (pre_save d) (save d db) = save d db"
proof -
  have "findById (save d db) (oid d) = Some (pre_save d)" by (simp add: findById_save)
  then show ?thesis using assms
    by (simp add: save_def pre_save_idem updateById_const_idem)
qed

lemma set_isExpired_same: "isExpired d \<Longrightarrow> d\<lparr>isExpired := True\<rparr> = d"
  by simp

lemma recordScan_expired_again:
  assumes "findById db i = Some q"
  shows "snd (recordScan clk' fails' i sd' (save (q\<lparr>isExpired := True\<rparr>) db))
           = save (q\<lparr>isExpired := True\<rparr>) db"
proof (cases "fails' FindById")
  case True
  then show ?thesis by (simp add: recordScan_def recordScan_try_def)
next
  case False
  let ?d = "q\<lparr>isExpired := True\<rparr>"
  have o: "oid ?d = i" using assms by (simp add: findById_oid)
  have f: "findById (save ?d db) i = Some (pre_save ?d)" using o by (simp add: findById_save)
  have x: "isQrCodeExpired (t_check clk') (Some (pre_save ?d))" by simp
  have s: "save (pre_save ?d) (save ?d db) = save ?d db"
    using assms o by (simp add: save_twice)
  have r: "(pre_save ?d)\<lparr>isExpired := True\<rparr> = pre_save ?d" by simp
  show ?thesis
    using recordScan_expired_eq [where fails = fails' and clk = clk' and sd = sd', OF False f x]
    unfolding r s by simp
qed

lemma updateById_first:
  "findById db i = Some q \<Longrightarrow> updateById i f db = updateById i (\<lambda>_. f q) db"
  by (induction db) (auto simp: findById_Cons split: if_splits)

lemma updateById_const_twice:
  "oid c = i \<Longrightarrow>
     updateById i (\<lambda>_. c') (updateById i (\<lambda>_. c) db) = updateById i (\<lambda>_. c') db"
  by (induction db) auto

lemma findById_updateById_const:
  "findById db i = Some q \<Longrightarrow> oid c = i \<Longrightarrow> findById (updateById i (\<lambda>_. c) db) i = Some c"
  by (simp add: findById_updateById)

lemma findById_scan_write:
  assumes "findById db i = Some d"
  shows "findById (scan_write clk q i sd db) i
           = Some (scan_update clk q (or_unknown (country sd)) (or_unknown (city sd)) d)"
  using assms by (simp add: scan_write_def findById_updateById)

text \<open>
  A scan of a live record: the first update is the whole state change, and the device
  step makes the call return null.
\<close>

lemma recordScan_live:
  assumes "\<not> fails FindById" and "\<not> fails FindByIdAndUpdate"
    and "findById db i = Some q" and "\<not> isQrCodeExpired (t_check clk) (Some q)"
  shows "recordScan clk fails i sd db = (None, scan_write clk q i sd db)"
  using assms
  by (simp add: recordScan_def recordScan_try_def Let_def del: isQrCodeExpired.simps)

lemma recordScan_on_flagged:
  assumes "findById db i = Some q" and "isExpired q"
  shows "fst (recordScan clk fails i sd db) = None
         \<and> map analytics (snd (recordScan clk fails i sd db)) = map analytics db"
proof (cases "fails FindById")
  case True
  then show ?thesis by (simp add: recordScan_def recordScan_try_def)
next
  case False
  have e: "isQrCodeExpired (t_check clk) (Some q)" using assms(2) by simp
  have o: "oid q = i" using assms(1) by (rule findById_oid)
  show ?thesis
    using assms(1) o
    by (simp add: recordScan_expired_eq [where fails = fails and clk = clk, OF False assms(1) e]
          map_analytics_save [where q = q])
qed

text \<open>
  Claim C9. When the lookup answers with a record that the policy evaluator judges
  expired, \<open>recordScan\<close> returns null and the analytics block of every document
  (\<open>scanCount\<close>, \<open>lastScanned\<close>, \<open>scanLocations\<close>, \<open>devices\<close>) is unchanged; when the
  save is not rejected, the stored record has \<open>isExpired = true\<close>, and any further call
  on it leaves the store as it is (the write is idempotent). An absent record gives null
  and an unchanged store, and every error raised in the body is caught and gives null.
\<close>

theorem recordScan_expired_null:
  "(\<not> fails FindById \<and> findById db i = Some q \<and> isQrCodeExpired (t_check clk) (Some q) \<longrightarrow>
      fst (recordScan clk fails i sd db) = None
      \<and> map analytics (snd (recordScan clk fails i sd db)) = map analytics db
      \<and> (\<not> fails Save \<longrightarrow>
            map_option isExpired (findById (snd (recordScan clk fails i sd db)) i) = Some True
            \<and> (\<forall>clk' fails' sd'.
                  snd (recordScan clk' fails' i sd' (snd (recordScan clk fails i sd db)))
                    = snd (recordScan clk fails i sd db))))
   \<and> (findById db i = None \<longrightarrow> recordScan clk fails i sd db = (None, db))
   \<and> (\<forall>e. fst (recordScan_try clk fails i sd db) = Inl e \<longrightarrow>
          fst (recordScan clk fails i sd db) = None)"
proof (intro conjI impI allI)
  assume a: "\<not> fails FindById \<and> findById db i = Some q \<and> isQrCodeExpired (t_check clk) (Some q)"
  then have eq: "recordScan clk fails i sd db =
      (None, if fails Save then db else save (q\<lparr>isExpired := True\<rparr>) db)"
    by (simp add: recordScan_expired_eq del: isQrCodeExpired.simps)
  from a have fq: "findById db i = Some q" by simp
  then have o: "oid q = i" by (rule findById_oid)
  show "fst (recordScan clk fails i sd db) = None" using eq by simp
  show "map analytics (snd (recordScan clk fails i sd db)) = map analytics db"
    using eq fq o by (simp add: map_analytics_save [where q = q])
  {
    assume ns: "\<not> fails Save"
    show "map_option isExpired (findById (snd (recordScan clk fails i sd db)) i) = Some True"
      using eq ns o by (simp add: findById_save)
    fix clk' fails' sd'
    show "snd (recordScan clk' fails' i sd' (snd (recordScan clk fails i sd db)))
            = snd (recordScan clk fails i sd db)"
      using eq ns fq by (simp add: recordScan_expired_again)
  }
next
  assume "findById db i = None"
  then show "recordScan clk fails i sd db = (None, db)" by (rule recordScan_absent)
next
  fix e
  assume "fst (recordScan_try clk fails i sd db) = Inl e"
  then show "fst (recordScan clk fails i sd db) = None" by (rule recordScan_caught)
qed

theorem recordScan_expired_null_witness:
  "\<not> no_faults FindById
   \<and> findById [example_qr\<lparr>isExpired := True\<rparr>] ''64b7f3a2c1d4e5f6a7b8c9d0'' = Some (example_qr\<lparr>isExpired := True\<rparr>)
   \<and> isQrCodeExpired (t_check example_clock) (Some (example_qr\<lparr>isExpired := True\<rparr>))
   \<and> fst (recordScan example_clock no_faults ''64b7f3a2c1d4e5f6a7b8c9d0'' example_scan
             [example_qr\<lparr>isExpired := True\<rparr>]) = None
   \<and> map analytics (snd (recordScan example_clock no_faults ''64b7f3a2c1d4e5f6a7b8c9d0'' example_scan
             [example_qr\<lparr>isExpired := True\<rparr>])) = [analytics example_qr]"
  using recordScan_expired_null [of no_faults "[example_qr\<lparr>isExpired := True\<rparr>]" "''64b7f3a2c1d4e5f6a7b8c9d0''"
          "example_qr\<lparr>isExpired := True\<rparr>" example_clock example_scan]
  by (simp add: no_faults_def findById_def example_qr_def)

text \<open>
  Claim C3 says that no operation, the update inside \<open>recordScan\<close> included, sets a
  true \<open>isExpired\<close> flag back to false. The update does: it writes the boolean computed
  from the document read at the start of the call. The call awaits between that read and
  the update, so another call can flag the record in between; when the stale document has
  \<open>maxScans = 0\<close> the update then stores \<open>isExpired = false\<close> over the stored true (and
  counts the scan). Calls that run one after another keep the flag, see
  \<open>recordScan_keeps_expired\<close>.
\<close>

theorem scan_write_resets_isExpired:
  "findById db i = Some d \<and> isExpired d \<and> maxScans (security q) = 0 \<longrightarrow>
     (\<exists>d'. findById (scan_write clk q i sd db) i = Some d'
          \<and> \<not> isExpired d'
          \<and> scanCount (analytics d') = scanCount (analytics d) + 1)"
proof
  assume a: "findById db i = Some d \<and> isExpired d \<and> maxScans (security q) = 0"
  then have "findById (scan_write clk q i sd db) i
               = Some (scan_update clk q (or_unknown (country sd)) (or_unknown (city sd)) d)"
    by (simp add: findById_scan_write)
  then show "\<exists>d'. findById (scan_write clk q i sd db) i = Some d'
          \<and> \<not> isExpired d'
          \<and> scanCount (analytics d') = scanCount (analytics d) + 1"
    using a by (simp add: scan_update_def)
qed

theorem scan_write_resets_isExpired_witness:
  "findById [expiring_qr] ''64b7f3a2c1d4e5f6a7b8c9d0'' = Some expiring_qr
   \<and> \<not> isQrCodeExpired (t_check early_clock) (Some expiring_qr)
   \<and> maxScans (security expiring_qr) = 0
   \<and> recordScan late_clock no_faults ''64b7f3a2c1d4e5f6a7b8c9d0'' example_scan [expiring_qr]
       = (None, [expiring_qr\<lparr>isExpired := True\<rparr>])
   \<and> map_option isExpired
        (findById (scan_write early_clock expiring_qr ''64b7f3a2c1d4e5f6a7b8c9d0'' example_scan
           [expiring_qr\<lparr>isExpired := True\<rparr>]) ''64b7f3a2c1d4e5f6a7b8c9d0'') = Some False
   \<and> map_option (\<lambda>d. scanCount (analytics d))
        (findById (scan_write early_clock expiring_qr ''64b7f3a2c1d4e5f6a7b8c9d0'' example_scan
           [expiring_qr\<lparr>isExpired := True\<rparr>]) ''64b7f3a2c1d4e5f6a7b8c9d0'') = Some 3"
proof -
  have read: "findById [expiring_qr] ''64b7f3a2c1d4e5f6a7b8c9d0'' = Some expiring_qr
     \<and> \<not> isQrCodeExpired (t_check early_clock) (Some expiring_qr)
     \<and> maxScans (security expiring_qr) = 0"
    by (simp add: findById_Cons expiring_qr_def example_qr_def early_clock_def
          limit_reached_def)
  have flag: "recordScan late_clock no_faults ''64b7f3a2c1d4e5f6a7b8c9d0'' example_scan
                [expiring_qr] = (None, [expiring_qr\<lparr>isExpired := True\<rparr>])"
    by (simp add: recordScan_def recordScan_try_def no_faults_def findById_Cons save_def
          pre_save_def Let_def expiring_qr_def example_qr_def late_clock_def)
  have h: "findById [expiring_qr\<lparr>isExpired := True\<rparr>] ''64b7f3a2c1d4e5f6a7b8c9d0''
             = Some (expiring_qr\<lparr>isExpired := True\<rparr>)
           \<and> isExpired (expiring_qr\<lparr>isExpired := True\<rparr>)
           \<and> maxScans (security expiring_qr) = 0"
    by (simp add: findById_Cons expiring_qr_def example_qr_def)
  from scan_write_resets_isExpired [where db = "[expiring_qr\<lparr>isExpired := True\<rparr>]"
      and i = "''64b7f3a2c1d4e5f6a7b8c9d0''" and d = "expiring_qr\<lparr>isExpired := True\<rparr>"
      and q = expiring_qr and clk = early_clock and sd = example_scan, rule_format, OF h]
  obtain d' where d': "findById (scan_write early_clock expiring_qr
      ''64b7f3a2c1d4e5f6a7b8c9d0'' example_scan [expiring_qr\<lparr>isExpired := True\<rparr>])
      ''64b7f3a2c1d4e5f6a7b8c9d0'' = Some d'" "\<not> isExpired d'"
    "scanCount (analytics d') = scanCount (analytics (expiring_qr\<lparr>isExpired := True\<rparr>)) + 1"
    by blast
  have c: "scanCount (analytics (expiring_qr\<lparr>isExpired := True\<rparr>)) = 2"
    by (simp add: expiring_qr_def example_qr_def)
  show ?thesis using read flag d' c by simp
qed



section \<open>Properties of the routes\<close>

lemma security_scan_update [simp]: "security (scan_update clk q c t d) = security d"
  by (simp add: scan_update_def)

lemma scanCount_scan_update [simp]:
  "scanCount (analytics (scan_update clk q c t d)) = scanCount (analytics d) + 1"
  by (simp add: scan_update_def)

text \<open>What a scan of a live record returns and stores, as far as the routes look at it.\<close>

lemma recordScan_live_stored:
  assumes "\<not> fails FindById" and "\<not> fails FindByIdAndUpdate"
    and "findById db i = Some q" and "\<not> isQrCodeExpired (t_check clk) (Some q)"
  shows "fst (recordScan clk fails i sd db) = None
         \<and> map_option (\<lambda>d. scanCount (analytics d))
               (findById (snd (recordScan clk fails i sd db)) i)
             = Some (scanCount (analytics q) + 1)"
  using assms(3)
  by (simp add: recordScan_live [OF assms] findById_scan_write)

lemma verify_password_match:
  assumes "\<not> lookup_fails" and "findById db i = Some q"
    and "isPasswordProtected (security q)"
    and "\<not> date_passed now (expiresAt (security q))" and "\<not> limit_reached q"
    and "password (security q) = Some stored" and "p \<noteq> []" and "trim stored = trim p"
  shows "verify_password now lookup_fails clk fails i (Text p) req db =
           (Verify_Success (qr_text q) (qr_text q) (qrType q) (scanCount (analytics q))
              (maxScans (security q)),
            snd (recordScan clk fails i (verify_scanData req) db))"
  using assms by (simp add: verify_password_def Let_def)

lemma verify_password_mismatch:
  assumes "\<not> lookup_fails" and "findById db i = Some q"
    and "isPasswordProtected (security q)"
    and "\<not> date_passed now (expiresAt (security q))" and "\<not> limit_reached q"
    and "password (security q) = Some stored" and "p \<noteq> []" and "trim stored \<noteq> trim p"
  shows "verify_password now lookup_fails clk fails i (Text p) req db =
           (Verify_InvalidPassword, db)"
  using assms by (simp add: verify_password_def Let_def)

lemma trim_examples:
  "trim ''abc'' = ''abc''" "trim '' abc '' = ''abc''" "trim ''ABC'' = ''ABC''"
  by (simp_all add: trim_def isWhiteSpace_def)

text \<open>The password form of the redirect route is issued after the date and limit
  checks and before any call of the scan recorder.\<close>

lemma track_redirect_password_form:
  assumes "fst (track_redirect now now2 lookup_fails geo clk fails i tid req db)
             = Page_PasswordForm j t"
  shows "snd (track_redirect now now2 lookup_fails geo clk fails i tid req db) = db
         \<and> (\<exists>q. findById db i = Some q \<and> isPasswordProtected (security q)
                \<and> \<not> date_passed now (expiresAt (security q)) \<and> \<not> limit_reached q)"
  using assms
  by (auto simp: track_redirect_def Let_def split: if_splits option.splits prod.splits
        simp del: isQrCodeExpired.simps)

lemma track_redirect_protected:
  assumes "\<not> lookup_fails" and "findById db i = Some q" and "isPasswordProtected (security q)"
  shows "snd (track_redirect now now2 lookup_fails geo clk fails i tid req db) = db"
  using assms by (simp add: track_redirect_def)

text \<open>The pre-save hook establishes the password invariant, and the scan recorder
  keeps it.\<close>

lemma password_consistent_pre_save: "password_consistent (pre_save d)"
  by (simp add: password_consistent_def pre_save_def Let_def split: option.split jsdate.split)

lemma password_consistent_save:
  "findById (save d db) (oid d) = Some d' \<Longrightarrow> password_consistent d'"
  by (auto simp: findById_save password_consistent_pre_save)

lemma list_all_updateById:
  "list_all P db \<Longrightarrow> (\<And>q. P q \<Longrightarrow> P (f q)) \<Longrightarrow> list_all P (updateById i f db)"
  by (induction db) auto

lemma list_all_save:
  "list_all password_consistent db \<Longrightarrow> list_all password_consistent (save d db)"
  by (simp add: save_def list_all_updateById password_consistent_pre_save split: option.split)

lemma password_consistent_scan_update:
  "password_consistent d \<Longrightarrow> password_consistent (scan_update clk q c t d)"
  by (simp add: password_consistent_def)

lemma recordScan_password_consistent:
  assumes "list_all password_consistent db"
  shows "list_all password_consistent (snd (recordScan clk fails i sd db))"
  using assms
  by (simp add: recordScan_def recordScan_try_def scan_write_def Let_def list_all_save
        list_all_updateById password_consistent_scan_update
        del: isQrCodeExpired.simps split: option.split)

text \<open>
  Claim C5 says that on a password-protected record no scan is recorded before the
  submitted password has been verified. The route \<open>GET /api/analytics/track\<close> does
  otherwise: it calls \<open>recordScan\<close> before it looks at \<open>isPasswordProtected\<close>. For a
  record that is found, protected and not expired, when the lookups and the update are
  not rejected, the stored \<open>scanCount\<close> is one higher after the request although no
  password has been submitted; the route answers with the expired message, because the
  device step makes \<open>recordScan\<close> return null. (The redirect route issues its password
  form with the store unchanged, see \<open>track_redirect_password_form\<close>.)
\<close>

theorem track_scan_records_before_password:
  "\<not> lookup_fails \<and> \<not> fails FindById \<and> \<not> fails FindByIdAndUpdate
   \<and> findById db i = Some q \<and> isPasswordProtected (security q)
   \<and> \<not> isQrCodeExpired now (Some q) \<and> \<not> isQrCodeExpired (t_check clk) (Some q) \<longrightarrow>
     fst (track_scan now lookup_fails clk fails i tid req db) = Track_ExpiredOrMax
     \<and> map_option (\<lambda>d. scanCount (analytics d))
          (findById (snd (track_scan now lookup_fails clk fails i tid req db)) i)
        = Some (scanCount (analytics q) + 1)"
proof
  assume a: "\<not> lookup_fails \<and> \<not> fails FindById \<and> \<not> fails FindByIdAndUpdate
   \<and> findById db i = Some q \<and> isPasswordProtected (security q)
   \<and> \<not> isQrCodeExpired now (Some q) \<and> \<not> isQrCodeExpired (t_check clk) (Some q)"
  let ?sd = "\<lparr>userAgent = header_user_agent req, ip = req_ip req,
               referer = header_referer req,
               country = Some ''Unknown'', city = Some ''Unknown''\<rparr>"
  from a have h: "\<not> fails FindById" "\<not> fails FindByIdAndUpdate" "findById db i = Some q"
    "\<not> isQrCodeExpired (t_check clk) (Some q)" by simp_all
  have r: "recordScan clk fails i ?sd db = (None, scan_write clk q i ?sd db)"
    by (rule recordScan_live [OF h])
  have s: "map_option (\<lambda>d. scanCount (analytics d))
             (findById (scan_write clk q i ?sd db) i) = Some (scanCount (analytics q) + 1)"
    using h(3) by (simp add: findById_scan_write)
  show "fst (track_scan now lookup_fails clk fails i tid req db) = Track_ExpiredOrMax
     \<and> map_option (\<lambda>d. scanCount (analytics d))
          (findById (snd (track_scan now lookup_fails clk fails i tid req db)) i)
        = Some (scanCount (analytics q) + 1)"
    using a r s by (simp add: track_scan_def Let_def del: isQrCodeExpired.simps)
qed

theorem track_scan_records_before_password_witness:
  "findById [protected_qr] ''64b7f3a2c1d4e5f6a7b8c9d0'' = Some protected_qr
   \<and> isPasswordProtected (security protected_qr)
   \<and> scanCount (analytics protected_qr) = 2
   \<and> fst (track_scan 1000 False example_clock no_faults ''64b7f3a2c1d4e5f6a7b8c9d0'' ''t1''
           example_request [protected_qr]) = Track_ExpiredOrMax
   \<and> map_option (\<lambda>d. scanCount (analytics d))
        (findById (snd (track_scan 1000 False example_clock no_faults
           ''64b7f3a2c1d4e5f6a7b8c9d0'' ''t1'' example_request [protected_qr]))
           ''64b7f3a2c1d4e5f6a7b8c9d0'') = Some 3"
proof -
  have h: "\<not> False \<and> \<not> no_faults FindById \<and> \<not> no_faults FindByIdAndUpdate
     \<and> findById [protected_qr] ''64b7f3a2c1d4e5f6a7b8c9d0'' = Some protected_qr
     \<and> isPasswordProtected (security protected_qr)
     \<and> \<not> isQrCodeExpired 1000 (Some protected_qr)
     \<and> \<not> isQrCodeExpired (t_check example_clock) (Some protected_qr)"
    by (simp add: no_faults_def findById_Cons protected_qr_def example_qr_def
          example_clock_def limit_reached_def)
  have c: "scanCount (analytics protected_qr) = 2"
    by (simp add: protected_qr_def example_qr_def)
  note t = track_scan_records_before_password [where lookup_fails = False
      and fails = no_faults and db = "[protected_qr]" and i = "''64b7f3a2c1d4e5f6a7b8c9d0''"
      and q = protected_qr and now = 1000 and clk = example_clock and tid = "''t1''"
      and req = example_request, rule_format, OF h]
  show ?thesis using h t c by simp
qed

text \<open>
  Claim C6. For a protected record that passes the date and limit checks, a non-empty
  submitted string succeeds exactly when it equals the stored password after trimming
  both, case-sensitively; on success the store is the one \<open>recordScan\<close> leaves, on
  failure the answer is the authentication failure and the store is unchanged. With the
  stored password \<open>abc\<close>, the submission \<open>" abc "\<close> succeeds (and the scan is recorded
  when the recorder does not judge the record expired and no call is rejected) and
  \<open>ABC\<close> fails with the store unchanged.
\<close>

theorem verify_password_trimmed_equality:
  "\<not> lookup_fails \<and> findById db i = Some q \<and> isPasswordProtected (security q)
   \<and> \<not> date_passed now (expiresAt (security q)) \<and> \<not> limit_reached q
   \<and> password (security q) = Some stored \<longrightarrow>
     (\<forall>p. p \<noteq> [] \<longrightarrow>
        verify_password now lookup_fails clk fails i (Text p) req db =
          (if trim stored = trim p
           then (Verify_Success (qr_text q) (qr_text q) (qrType q) (scanCount (analytics q))
                   (maxScans (security q)),
                 snd (recordScan clk fails i (verify_scanData req) db))
           else (Verify_InvalidPassword, db)))
     \<and> (stored = ''abc'' \<longrightarrow>
          verify_password now lookup_fails clk fails i (Text '' abc '') req db =
            (Verify_Success (qr_text q) (qr_text q) (qrType q) (scanCount (analytics q))
               (maxScans (security q)),
             snd (recordScan clk fails i (verify_scanData req) db))
          \<and> verify_password now lookup_fails clk fails i (Text ''ABC'') req db =
            (Verify_InvalidPassword, db)
          \<and> ((\<forall>c. \<not> fails c) \<and> \<not> isQrCodeExpired (t_check clk) (Some q) \<longrightarrow>
               map_option (\<lambda>d. scanCount (analytics d))
                 (findById (snd (verify_password now lookup_fails clk fails i
                    (Text '' abc '') req db)) i)
               = Some (scanCount (analytics q) + 1)))"
proof (intro impI)
  assume a: "\<not> lookup_fails \<and> findById db i = Some q \<and> isPasswordProtected (security q)
   \<and> \<not> date_passed now (expiresAt (security q)) \<and> \<not> limit_reached q
   \<and> password (security q) = Some stored"
  then have h: "\<not> lookup_fails" "findById db i = Some q" "isPasswordProtected (security q)"
    "\<not> date_passed now (expiresAt (security q))" "\<not> limit_reached q"
    "password (security q) = Some stored" by simp_all
  have general: "\<forall>p. p \<noteq> [] \<longrightarrow>
        verify_password now lookup_fails clk fails i (Text p) req db =
          (if trim stored = trim p
           then (Verify_Success (qr_text q) (qr_text q) (qrType q) (scanCount (analytics q))
                   (maxScans (security q)),
                 snd (recordScan clk fails i (verify_scanData req) db))
           else (Verify_InvalidPassword, db))"
    using verify_password_match [OF h] verify_password_mismatch [OF h] by simp
  have scenario: "stored = ''abc'' \<longrightarrow>
          verify_password now lookup_fails clk fails i (Text '' abc '') req db =
            (Verify_Success (qr_text q) (qr_text q) (qrType q) (scanCount (analytics q))
               (maxScans (security q)),
             snd (recordScan clk fails i (verify_scanData req) db))
          \<and> verify_password now lookup_fails clk fails i (Text ''ABC'') req db =
            (Verify_InvalidPassword, db)
          \<and> ((\<forall>c. \<not> fails c) \<and> \<not> isQrCodeExpired (t_check clk) (Some q) \<longrightarrow>
               map_option (\<lambda>d. scanCount (analytics d))
                 (findById (snd (verify_password now lookup_fails clk fails i
                    (Text '' abc '') req db)) i)
               = Some (scanCount (analytics q) + 1))"
  proof
    assume s: "stored = ''abc''"
    have ok: "verify_password now lookup_fails clk fails i (Text '' abc '') req db =
            (Verify_Success (qr_text q) (qr_text q) (qrType q) (scanCount (analytics q))
               (maxScans (security q)),
             snd (recordScan clk fails i (verify_scanData req) db))"
      using verify_password_match [OF h, of "'' abc ''"] s by (simp add: trim_examples)
    have bad: "verify_password now lookup_fails clk fails i (Text ''ABC'') req db =
            (Verify_InvalidPassword, db)"
      using verify_password_mismatch [OF h, of "''ABC''"] s by (simp add: trim_examples)
    have rec: "(\<forall>c. \<not> fails c) \<and> \<not> isQrCodeExpired (t_check clk) (Some q) \<longrightarrow>
               map_option (\<lambda>d. scanCount (analytics d))
                 (findById (snd (verify_password now lookup_fails clk fails i
                    (Text '' abc '') req db)) i)
               = Some (scanCount (analytics q) + 1)"
    proof
      assume b: "(\<forall>c. \<not> fails c) \<and> \<not> isQrCodeExpired (t_check clk) (Some q)"
      then have nf: "\<forall>c. \<not> fails c" and ne: "\<not> isQrCodeExpired (t_check clk) (Some q)"
        by simp_all
      have nf1: "\<not> fails FindById" and nf2: "\<not> fails FindByIdAndUpdate"
        using nf by simp_all
      from recordScan_live_stored [OF nf1 nf2 h(2) ne, of "verify_scanData req"]
      show "map_option (\<lambda>d. scanCount (analytics d))
                 (findById (snd (verify_password now lookup_fails clk fails i
                    (Text '' abc '') req db)) i)
               = Some (scanCount (analytics q) + 1)"
        using ok by simp
    qed
    show "verify_password now lookup_fails clk fails i (Text '' abc '') req db =
            (Verify_Success (qr_text q) (qr_text q) (qrType q) (scanCount (analytics q))
               (maxScans (security q)),
             snd (recordScan clk fails i (verify_scanData req) db))
          \<and> verify_password now lookup_fails clk fails i (Text ''ABC'') req db =
            (Verify_InvalidPassword, db)
          \<and> ((\<forall>c. \<not> fails c) \<and> \<not> isQrCodeExpired (t_check clk) (Some q) \<longrightarrow>
               map_option (\<lambda>d. scanCount (analytics d))
                 (findById (snd (verify_password now lookup_fails clk fails i
                    (Text '' abc '') req db)) i)
               = Some (scanCount (analytics q) + 1))"
      using ok bad rec by blast
  qed
  show "(\<forall>p. p \<noteq> [] \<longrightarrow>
        verify_password now lookup_fails clk fails i (Text p) req db =
          (if trim stored = trim p
           then (Verify_Success (qr_text q) (qr_text q) (qrType q) (scanCount (analytics q))
                   (maxScans (security q)),
                 snd (recordScan clk fails i (verify_scanData req) db))
           else (Verify_InvalidPassword, db)))
     \<and> (stored = ''abc'' \<longrightarrow>
          verify_password now lookup_fails clk fails i (Text '' abc '') req db =
            (Verify_Success (qr_text q) (qr_text q) (qrType q) (scanCount (analytics q))
               (maxScans (security q)),
             snd (recordScan clk fails i (verify_scanData req) db))
          \<and> verify_password now lookup_fails clk fails i (Text ''ABC'') req db =
            (Verify_InvalidPassword, db)
          \<and> ((\<forall>c. \<not> fails c) \<and> \<not> isQrCodeExpired (t_check clk) (Some q) \<longrightarrow>
               map_option (\<lambda>d. scanCount (analytics d))
                 (findById (snd (verify_password now lookup_fails clk fails i
                    (Text '' abc '') req db)) i)
               = Some (scanCount (analytics q) + 1)))"
    using general scenario by blast
qed

theorem verify_password_trimmed_equality_witness:
  "findById [protected_qr] ''64b7f3a2c1d4e5f6a7b8c9d0'' = Some protected_qr
   \<and> isPasswordProtected (security protected_qr)
   \<and> password (security protected_qr) = Some ''abc''
   \<and> fst (verify_password 1000 False example_clock no_faults ''64b7f3a2c1d4e5f6a7b8c9d0'' (Text '' abc '')
           example_request [protected_qr])
       = Verify_Success ''https://example.org/a'' ''https://example.org/a'' ''url'' 2 0
   \<and> map_option (\<lambda>d. scanCount (analytics d))
        (findById (snd (verify_password 1000 False example_clock no_faults ''64b7f3a2c1d4e5f6a7b8c9d0''
           (Text '' abc '') example_request [protected_qr])) ''64b7f3a2c1d4e5f6a7b8c9d0'') = Some 3
   \<and> verify_password 1000 False example_clock no_faults ''64b7f3a2c1d4e5f6a7b8c9d0'' (Text ''ABC'')
        example_request [protected_qr] = (Verify_InvalidPassword, [protected_qr])"
proof -
  have h: "\<not> False \<and> findById [protected_qr] ''64b7f3a2c1d4e5f6a7b8c9d0'' = Some protected_qr
     \<and> isPasswordProtected (security protected_qr)
     \<and> \<not> date_passed 1000 (expiresAt (security protected_qr))
     \<and> \<not> limit_reached protected_qr
     \<and> password (security protected_qr) = Some ''abc''"
    by (simp add: findById_Cons protected_qr_def example_qr_def limit_reached_def)
  have n: "(\<forall>c. \<not> no_faults c)
     \<and> \<not> isQrCodeExpired (t_check example_clock) (Some protected_qr)"
    by (simp add: no_faults_def protected_qr_def example_qr_def limit_reached_def)
  note t = verify_password_trimmed_equality [of False "[protected_qr]" "''64b7f3a2c1d4e5f6a7b8c9d0''" protected_qr
          1000 "''abc''" example_clock no_faults example_request, rule_format, OF h]
  note s = t [THEN conjunct2, rule_format, OF refl]
  note ok = s [THEN conjunct1]
  note bad = s [THEN conjunct2, THEN conjunct1]
  note rec = s [THEN conjunct2, THEN conjunct2, rule_format, OF n]
  have v: "qr_text protected_qr = ''https://example.org/a''" "qrType protected_qr = ''url''"
    "scanCount (analytics protected_qr) = 2" "maxScans (security protected_qr) = 0"
    by (simp_all add: protected_qr_def example_qr_def)
  show ?thesis using h rec by (simp add: ok bad v)
qed

text \<open>
  Claim C10. The verification route ignores the result of \<open>recordScan\<close>: for a
  protected record with \<open>isExpired = true\<close>, \<open>expiresAt = null\<close> and \<open>maxScans = 0\<close>, a
  matching password is answered with success and the redirect target, while
  \<open>recordScan\<close> returns null and no analytics block changes.
\<close>

theorem verify_password_ignores_recordScan:
  "\<not> lookup_fails \<and> findById db i = Some q \<and> isPasswordProtected (security q)
   \<and> isExpired q \<and> expiresAt (security q) = None \<and> maxScans (security q) = 0
   \<and> password (security q) = Some stored \<and> p \<noteq> [] \<and> trim stored = trim p \<longrightarrow>
     fst (verify_password now lookup_fails clk fails i (Text p) req db)
       = Verify_Success (qr_text q) (qr_text q) (qrType q) (scanCount (analytics q)) 0
     \<and> fst (recordScan clk fails i (verify_scanData req) db) = None
     \<and> map analytics (snd (verify_password now lookup_fails clk fails i (Text p) req db))
         = map analytics db"
proof
  assume a: "\<not> lookup_fails \<and> findById db i = Some q \<and> isPasswordProtected (security q)
   \<and> isExpired q \<and> expiresAt (security q) = None \<and> maxScans (security q) = 0
   \<and> password (security q) = Some stored \<and> p \<noteq> [] \<and> trim stored = trim p"
  then have h: "\<not> lookup_fails" "findById db i = Some q" "isPasswordProtected (security q)"
    "\<not> date_passed now (expiresAt (security q))" "\<not> limit_reached q"
    "password (security q) = Some stored" "p \<noteq> []" "trim stored = trim p"
    by (simp_all add: limit_reached_def)
  from a have e: "isExpired q" and m: "maxScans (security q) = 0" by simp_all
  note v = verify_password_match [OF h, of clk fails req]
  note r = recordScan_on_flagged [OF h(2) e, of clk fails "verify_scanData req"]
  show "fst (verify_password now lookup_fails clk fails i (Text p) req db)
       = Verify_Success (qr_text q) (qr_text q) (qrType q) (scanCount (analytics q)) 0
     \<and> fst (recordScan clk fails i (verify_scanData req) db) = None
     \<and> map analytics (snd (verify_password now lookup_fails clk fails i (Text p) req db))
         = map analytics db"
    using r m by (simp add: v)
qed

theorem verify_password_ignores_recordScan_witness:
  "findById [flagged_qr] ''64b7f3a2c1d4e5f6a7b8c9d0'' = Some flagged_qr
   \<and> isPasswordProtected (security flagged_qr) \<and> isExpired flagged_qr
   \<and> expiresAt (security flagged_qr) = None \<and> maxScans (security flagged_qr) = 0
   \<and> password (security flagged_qr) = Some ''abc''
   \<and> fst (verify_password 1000 False example_clock no_faults ''64b7f3a2c1d4e5f6a7b8c9d0'' (Text ''abc'')
           example_request [flagged_qr])
       = Verify_Success ''https://example.org/a'' ''https://example.org/a'' ''url'' 2 0
   \<and> fst (recordScan example_clock no_faults ''64b7f3a2c1d4e5f6a7b8c9d0'' (verify_scanData example_request)
           [flagged_qr]) = None
   \<and> map analytics (snd (verify_password 1000 False example_clock no_faults ''64b7f3a2c1d4e5f6a7b8c9d0''
           (Text ''abc'') example_request [flagged_qr])) = [analytics flagged_qr]"
proof -
  have h: "\<not> False \<and> findById [flagged_qr] ''64b7f3a2c1d4e5f6a7b8c9d0'' = Some flagged_qr
     \<and> isPasswordProtected (security flagged_qr)
     \<and> isExpired flagged_qr \<and> expiresAt (security flagged_qr) = None
     \<and> maxScans (security flagged_qr) = 0
     \<and> password (security flagged_qr) = Some ''abc'' \<and> ''abc'' \<noteq> []
     \<and> trim ''abc'' = trim ''abc''"
    by (simp add: findById_Cons flagged_qr_def protected_qr_def example_qr_def)
  note t = verify_password_ignores_recordScan [of False "[flagged_qr]" "''64b7f3a2c1d4e5f6a7b8c9d0''" flagged_qr
      "''abc''" "''abc''" 1000 example_clock no_faults example_request, rule_format, OF h]
  have v: "qr_text flagged_qr = ''https://example.org/a''" "qrType flagged_qr = ''url''"
    "scanCount (analytics flagged_qr) = 2"
    by (simp_all add: flagged_qr_def protected_qr_def example_qr_def)
  show ?thesis using h t by (simp add: v)
qed

text \<open>
  Claim C4 says that after any write, the update route included, a password is stored
  only under protection. The update route does otherwise: an edit that switches
  \<open>isPasswordProtected\<close> off on a protected record with a non-empty password leaves that
  password in the stored document. (The pre-save hook and the scan recorder keep the
  invariant, see \<open>password_consistent_pre_save\<close> and \<open>recordScan_password_consistent\<close>.)
\<close>

theorem update_qrcode_keeps_password:
  "\<not> query_fails \<and> findById db i = Some q \<and> userId q = uid
   \<and> isPasswordProtected (security q) \<and> password (security q) = Some p \<and> p \<noteq> [] \<longrightarrow>
     (\<exists>d. update_qrcode query_fails i uid [Set_isPasswordProtected False] db
            = (Update_Ok d, updateById i (\<lambda>_. d) db)
          \<and> findById (updateById i (\<lambda>_. d) db) i = Some d
          \<and> \<not> isPasswordProtected (security d) \<and> password (security d) = Some p
          \<and> \<not> password_consistent d)"
proof
  assume a: "\<not> query_fails \<and> findById db i = Some q \<and> userId q = uid
   \<and> isPasswordProtected (security q) \<and> password (security q) = Some p \<and> p \<noteq> []"
  let ?d = "q\<lparr>security := (security q)\<lparr>isPasswordProtected := False\<rparr>\<rparr>"
  from a have f: "findById db i = Some q" by simp
  then have "oid ?d = i" by (simp add: findById_oid)
  with f have "findById (updateById i (\<lambda>_. ?d) db) i = Some ?d"
    by (rule findById_updateById_const)
  then show "\<exists>d. update_qrcode query_fails i uid [Set_isPasswordProtected False] db
            = (Update_Ok d, updateById i (\<lambda>_. d) db)
          \<and> findById (updateById i (\<lambda>_. d) db) i = Some d
          \<and> \<not> isPasswordProtected (security d) \<and> password (security d) = Some p
          \<and> \<not> password_consistent d"
    using a
    by (intro exI [where x = "?d"]) (simp add: update_qrcode_def password_consistent_def Let_def)
qed

theorem update_qrcode_keeps_password_witness:
  "findById [protected_qr] ''64b7f3a2c1d4e5f6a7b8c9d0'' = Some protected_qr \<and> userId protected_qr = ''u1''
   \<and> isPasswordProtected (security protected_qr)
   \<and> password (security protected_qr) = Some ''abc''
   \<and> (\<exists>d. update_qrcode False ''64b7f3a2c1d4e5f6a7b8c9d0'' ''u1'' [Set_isPasswordProtected False] [protected_qr]
            = (Update_Ok d, [d])
          \<and> \<not> isPasswordProtected (security d) \<and> password (security d) = Some ''abc''
          \<and> \<not> password_consistent d)"
proof -
  have h: "\<not> False \<and> findById [protected_qr] ''64b7f3a2c1d4e5f6a7b8c9d0'' = Some protected_qr
     \<and> userId protected_qr = ''u1''
     \<and> isPasswordProtected (security protected_qr)
     \<and> password (security protected_qr) = Some ''abc'' \<and> ''abc'' \<noteq> []"
    by (simp add: findById_Cons protected_qr_def example_qr_def)
  have o: "oid protected_qr = ''64b7f3a2c1d4e5f6a7b8c9d0''" by (simp add: protected_qr_def example_qr_def)
  note t = update_qrcode_keeps_password [of False "[protected_qr]" "''64b7f3a2c1d4e5f6a7b8c9d0''" protected_qr
      "''u1''" "''abc''", rule_format, OF h]
  then obtain d where d:
    "update_qrcode False ''64b7f3a2c1d4e5f6a7b8c9d0'' ''u1'' [Set_isPasswordProtected False] [protected_qr]
       = (Update_Ok d, updateById ''64b7f3a2c1d4e5f6a7b8c9d0'' (\<lambda>_. d) [protected_qr])"
    "\<not> isPasswordProtected (security d)" "password (security d) = Some ''abc''"
    "\<not> password_consistent d" by blast
  have "updateById ''64b7f3a2c1d4e5f6a7b8c9d0'' (\<lambda>_. d) [protected_qr] = [d]" using o by simp
  with d h show ?thesis by auto
qed

section \<open>Properties of the analytics aggregation\<close>

lemma filter_key_absent:
  "k \<notin> f ` set xs \<Longrightarrow> filter (\<lambda>x. f x = k) xs = []"
  by (induction xs) auto

lemma count_device_undefined: "count_device m d = m(''undefined'' \<mapsto> NaN)"
  by (auto simp: count_device_def Let_def split: option.split jsnumber.split)

lemma foldl_count_device:
  "foldl count_device m ds = (if ds = [] then m else m(''undefined'' \<mapsto> NaN))"
  by (induction ds arbitrary: m) (simp_all add: count_device_undefined)

lemma foldl_count_location:
  "foldl count_location m ls k =
     (if k \<in> (\<lambda>l. or_unknown (loc_country l)) ` set ls
      then Some (entry m k + int (length (filter (\<lambda>l. or_unknown (loc_country l) = k) ls)))
      else m k)"
proof (induction ls arbitrary: m)
  case Nil
  then show ?case by simp
next
  case (Cons l ls)
  have e: "entry (count_location m l) k =
             (if or_unknown (loc_country l) = k then entry m k + 1 else entry m k)"
    by (simp add: count_location_def entry_def Let_def)
  have s: "count_location m l k =
             (if or_unknown (loc_country l) = k then Some (entry m k + 1) else m k)"
    by (simp add: count_location_def entry_def Let_def)
  show ?case
    by (auto simp: Cons.IH e s filter_key_absent)
qed

lemma totalQrCodes_aggregate:
  "totalQrCodes (fst (foldl aggregate_qr st qs)) = totalQrCodes (fst st)"
  by (induction qs arbitrary: st) (simp_all add: aggregate_qr_def Let_def)

lemma totalScans_aggregate:
  "totalScans (fst (foldl aggregate_qr st qs)) =
     totalScans (fst st) + sum_list (map (\<lambda>q. scanCount (analytics q)) qs)"
  by (induction qs arbitrary: st) (simp_all add: aggregate_qr_def Let_def)

lemma scansByDevice_aggregate:
  "scansByDevice (fst (foldl aggregate_qr st qs)) =
     foldl count_device (scansByDevice (fst st)) (concat (map (\<lambda>q. devices (analytics q)) qs))"
  by (induction qs arbitrary: st) (simp_all add: aggregate_qr_def Let_def)

lemma scansByLocation_aggregate:
  "scansByLocation (fst (foldl aggregate_qr st qs)) =
     foldl count_location (scansByLocation (fst st))
       (concat (map (\<lambda>q. scanLocations (analytics q)) qs))"
  by (induction qs arbitrary: st) (simp_all add: aggregate_qr_def Let_def)

text \<open>The loop invariant of the search for the most scanned record.\<close>

lemma aggregate_qr_snd:
  "snd (aggregate_qr st q) = max (snd st) (scanCount (analytics q))"
  by (simp add: aggregate_qr_def Let_def max_def)

lemma aggregate_qr_mostScanned:
  "mostScanned (fst (aggregate_qr st q)) =
     (if snd st < scanCount (analytics q) then Some (most_scanned_of q)
      else mostScanned (fst st))"
  by (simp add: aggregate_qr_def Let_def most_scanned_of_def)

lemma maxScans_aggregate:
  "snd st \<le> snd (foldl aggregate_qr st qs)
   \<and> (\<forall>q \<in> set qs. scanCount (analytics q) \<le> snd (foldl aggregate_qr st qs))"
proof (induction qs rule: rev_induct)
  case Nil
  then show ?case by simp
next
  case (snoc q' qs)
  then show ?case by (auto simp: aggregate_qr_snd)
qed

lemma mostScanned_None:
  "mostScanned (fst (foldl aggregate_qr (a, 0) qs)) = None \<Longrightarrow>
     snd (foldl aggregate_qr (a, 0) qs) = 0"
proof (induction qs rule: rev_induct)
  case Nil
  then show ?case by simp
next
  case (snoc q' qs)
  then show ?case
    by (auto simp: aggregate_qr_snd aggregate_qr_mostScanned split: if_splits)
qed

lemma mostScanned_Some:
  assumes "mostScanned a = None"
    and "mostScanned (fst (foldl aggregate_qr (a, 0) qs)) = Some m"
  shows "\<exists>pre q post. qs = pre @ q # post \<and> m = most_scanned_of q
           \<and> scanCount (analytics q) = snd (foldl aggregate_qr (a, 0) qs)
           \<and> 0 < scanCount (analytics q)
           \<and> (\<forall>x \<in> set pre. scanCount (analytics x) < scanCount (analytics q))
           \<and> (\<forall>x \<in> set post. scanCount (analytics x) \<le> scanCount (analytics q))"
  using assms(2)
proof (induction qs arbitrary: m rule: rev_induct)
  case Nil
  then show ?case using assms(1) by simp
next
  case (snoc q' qs)
  define r where "r = foldl aggregate_qr (a, 0) qs"
  have bound: "0 \<le> snd r" "\<forall>x \<in> set qs. scanCount (analytics x) \<le> snd r"
    using maxScans_aggregate [of "(a, 0)" qs] by (simp_all add: r_def)
  have r': "foldl aggregate_qr (a, 0) (qs @ [q']) = aggregate_qr r q'"
    by (simp add: r_def)
  show ?case
  proof (cases "snd r < scanCount (analytics q')")
    case True
    then have m: "m = most_scanned_of q'"
      using snoc.prems by (simp add: aggregate_qr_mostScanned r_def)
    have s: "snd (aggregate_qr r q') = scanCount (analytics q')"
      using True by (simp add: aggregate_qr_snd)
    have p: "\<forall>x \<in> set qs. scanCount (analytics x) < scanCount (analytics q')"
      using bound(2) True by auto
    have z: "0 < scanCount (analytics q')" using bound(1) True by simp
    show ?thesis
      unfolding r'
      apply (rule exI [where x = qs])
      apply (rule exI [where x = q'])
      apply (rule exI [where x = "[]"])
      using m s p z by simp
  next
    case False
    then have ms: "mostScanned (fst (foldl aggregate_qr (a, 0) qs)) = Some m"
      using snoc.prems by (simp add: aggregate_qr_mostScanned r_def)
    have s: "snd (aggregate_qr r q') = snd r"
      using False by (simp add: aggregate_qr_snd)
    from snoc.IH [OF ms] obtain pre q post where d:
      "qs = pre @ q # post \<and> m = most_scanned_of q
           \<and> scanCount (analytics q) = snd (foldl aggregate_qr (a, 0) qs)
           \<and> 0 < scanCount (analytics q)
           \<and> (\<forall>x \<in> set pre. scanCount (analytics x) < scanCount (analytics q))
           \<and> (\<forall>x \<in> set post. scanCount (analytics x) \<le> scanCount (analytics q))"
      by (elim exE) (rule that)
    then have e: "scanCount (analytics q) = snd r" unfolding r_def by blast
    have le: "scanCount (analytics q') \<le> scanCount (analytics q)" using e False by simp
    from d have d1: "qs = pre @ q # post" and d2: "m = most_scanned_of q"
      and d4: "0 < scanCount (analytics q)"
      and d5: "\<forall>x \<in> set pre. scanCount (analytics x) < scanCount (analytics q)"
      and d6: "\<forall>x \<in> set post. scanCount (analytics x) \<le> scanCount (analytics q)"
      by blast+
    have c1: "qs @ [q'] = pre @ q # (post @ [q'])" using d1 by simp
    have c3: "scanCount (analytics q) = snd (aggregate_qr r q')" using e s by simp
    have c6: "\<forall>x \<in> set (post @ [q']). scanCount (analytics x) \<le> scanCount (analytics q)"
      using d6 le by simp
    show ?thesis
      unfolding r'
      apply (rule exI [where x = pre])
      apply (rule exI [where x = q])
      apply (rule exI [where x = "post @ [q']"])
      apply (intro conjI)
           apply (rule c1)
          apply (rule d2)
         apply (rule c3)
        apply (rule d4)
       apply (rule d5)
      apply (rule c6)
      done
  qed
qed

lemma filter_first:
  "(case filter P xs of [] \<Rightarrow> None | x # _ \<Rightarrow> Some (f x)) = map_option f (find P xs)"
  by (induction xs) auto

lemma getAnalytics_single:
  assumes "id_given (Some i)" and "\<not> ff"
  shows "getAnalytics ff (Some i) uid db
           = map_option (\<lambda>q. Analytics_Block (analytics q)) (findById db i)"
  using assms by (simp add: getAnalytics_def findById_def filter_first)

lemma getAnalytics_user:
  assumes "\<not> id_given qid" and "id_given (Some u)" and "\<not> ff"
  shows "getAnalytics ff qid (Some u) db =
           Some (Analytics_Summary (fst (foldl aggregate_qr
             (\<lparr>totalQrCodes = length (filter (\<lambda>q. userId q = u) db), totalScans = 0,
               scansByDate = Map.empty, scansByDevice = Map.empty,
               scansByLocation = Map.empty, mostScanned = None\<rparr>, 0)
             (filter (\<lambda>q. userId q = u) db))))"
  using assms by (simp add: getAnalytics_def Let_def)

lemma mostScanned_None_iff:
  assumes "mostScanned a = None"
  shows "mostScanned (fst (foldl aggregate_qr (a, 0) qs)) = None
           \<longleftrightarrow> (\<forall>q \<in> set qs. scanCount (analytics q) \<le> 0)"
proof
  assume "mostScanned (fst (foldl aggregate_qr (a, 0) qs)) = None"
  then have "snd (foldl aggregate_qr (a, 0) qs) = 0" by (rule mostScanned_None)
  then show "\<forall>q \<in> set qs. scanCount (analytics q) \<le> 0"
    using maxScans_aggregate [of "(a, 0)" qs] by simp
next
  assume le: "\<forall>q \<in> set qs. scanCount (analytics q) \<le> 0"
  show "mostScanned (fst (foldl aggregate_qr (a, 0) qs)) = None"
  proof (rule ccontr)
    assume "mostScanned (fst (foldl aggregate_qr (a, 0) qs)) \<noteq> None"
    then obtain m where "mostScanned (fst (foldl aggregate_qr (a, 0) qs)) = Some m" by auto
    from mostScanned_Some [OF assms this] obtain pre q post where
      "qs = pre @ q # post" "0 < scanCount (analytics q)" by blast
    then show False using le by auto
  qed
qed

lemma three_scans:
  assumes "mostScanned a = None" and "totalScans a = 0"
    and "scanCount (analytics q1) = 5" and "scanCount (analytics q2) = 12"
    and "scanCount (analytics q3) = 3"
  shows "totalScans (fst (foldl aggregate_qr (a, 0) [q1, q2, q3])) = 20
         \<and> mostScanned (fst (foldl aggregate_qr (a, 0) [q1, q2, q3])) = Some (most_scanned_of q2)"
proof
  show "totalScans (fst (foldl aggregate_qr (a, 0) [q1, q2, q3])) = 20"
    using assms totalScans_aggregate [of "(a, 0)" "[q1, q2, q3]"] by simp
  show "mostScanned (fst (foldl aggregate_qr (a, 0) [q1, q2, q3])) = Some (most_scanned_of q2)"
    using assms by (simp add: aggregate_qr_mostScanned aggregate_qr_snd)
qed

text \<open>
  Claim C8 states that in user scope \<open>mostScanned\<close> is the record with the highest
  \<open>scanCount\<close>. For a user whose only record has never been scanned, the summary counts
  one record and \<open>mostScanned\<close> is null.
\<close>

theorem getAnalytics_mostScanned_counterexample:
  "map_option totalQrCodes
     (summary_of (getAnalytics False None (Some ''u1'') [unscanned_qr])) = Some 1
   \<and> map_option mostScanned
     (summary_of (getAnalytics False None (Some ''u1'') [unscanned_qr])) = Some None"
  by (simp add: getAnalytics_def id_given_def unscanned_qr_def aggregate_qr_def Let_def)

text \<open>
  The per-device totals are not sums over device entries: a stored device entry is a
  string without a type and a count. A record with the entry \<open>ios\<close> gives no total
  under \<open>ios\<close>; the summary has the one key \<open>undefined\<close> with the value NaN.
\<close>

lemma getAnalytics_device_entries_uncounted:
  "map_option (\<lambda>s. (scansByDevice s ''ios'', scansByDevice s ''undefined''))
     (summary_of (getAnalytics False None (Some ''u1'')
        [unscanned_qr\<lparr>analytics := (analytics unscanned_qr)\<lparr>devices := [''ios'']\<rparr>\<rparr>]))
   = Some (None, Some NaN)"
  by (simp add: getAnalytics_def id_given_def unscanned_qr_def aggregate_qr_def Let_def
        count_device_undefined)

text \<open>
  Claim C8, amended. \<open>getAnalytics\<close> returns null when neither identifier is given.
  With a \<open>qrId\<close> (and the query answered) it returns the analytics block of the record
  with that identifier, null when there is none. With only a \<open>userId\<close> it returns the
  summary over the records the user owns, in query order: their number; the sum of their
  scan counts; as \<open>mostScanned\<close> the first record with the highest scan count when that
  count is positive, and null exactly when no owned record has a positive scan count; for
  every country the number of location entries with that country, a missing or empty
  country counting as \<open>Unknown\<close> and any other country as itself. For three records
  with scan counts 5, 12, 3, \<open>totalScans\<close> is 20 and \<open>mostScanned\<close> is the record with 12.
  The per-device totals are not part of the statement.
\<close>

theorem getAnalytics_scopes:
  "(\<not> id_given qid \<and> \<not> id_given uid \<longrightarrow> getAnalytics ff qid uid db = None)
   \<and> (id_given (Some i) \<and> \<not> ff \<longrightarrow>
        getAnalytics ff (Some i) uid db
          = map_option (\<lambda>q. Analytics_Block (analytics q)) (findById db i))
   \<and> (\<not> id_given qid \<and> id_given (Some u) \<and> \<not> ff \<longrightarrow>
        (\<exists>s. getAnalytics ff qid (Some u) db = Some (Analytics_Summary s)
           \<and> totalQrCodes s = length (filter (\<lambda>q. userId q = u) db)
           \<and> totalScans s
               = sum_list (map (\<lambda>q. scanCount (analytics q)) (filter (\<lambda>q. userId q = u) db))
           \<and> (mostScanned s = None \<longleftrightarrow>
                (\<forall>q \<in> set (filter (\<lambda>q. userId q = u) db). scanCount (analytics q) \<le> 0))
           \<and> (\<forall>m. mostScanned s = Some m \<longrightarrow>
                (\<exists>pre q post. filter (\<lambda>q. userId q = u) db = pre @ q # post
                   \<and> m = most_scanned_of q \<and> 0 < scanCount (analytics q)
                   \<and> (\<forall>x \<in> set pre. scanCount (analytics x) < scanCount (analytics q))
                   \<and> (\<forall>x \<in> set post. scanCount (analytics x) \<le> scanCount (analytics q))))
           \<and> (\<forall>k. scansByLocation s k =
                (let ls = concat (map (\<lambda>q. scanLocations (analytics q))
                                   (filter (\<lambda>q. userId q = u) db))
                 in if k \<in> (\<lambda>l. or_unknown (loc_country l)) ` set ls
                    then Some (int (length (filter (\<lambda>l. or_unknown (loc_country l) = k) ls)))
                    else None))
           \<and> (\<forall>q1 q2 q3. filter (\<lambda>q. userId q = u) db = [q1, q2, q3]
                \<and> scanCount (analytics q1) = 5 \<and> scanCount (analytics q2) = 12
                \<and> scanCount (analytics q3) = 3 \<longrightarrow>
                  totalScans s = 20 \<and> mostScanned s = Some (most_scanned_of q2))))
   \<and> or_unknown None = ''Unknown'' \<and> or_unknown (Some []) = ''Unknown''
   \<and> (\<forall>c. c \<noteq> [] \<longrightarrow> or_unknown (Some c) = c)"
proof (intro conjI impI allI)
  assume "\<not> id_given qid \<and> \<not> id_given uid"
  then show "getAnalytics ff qid uid db = None" by (simp add: getAnalytics_def)
next
  assume "id_given (Some i) \<and> \<not> ff"
  then show "getAnalytics ff (Some i) uid db
          = map_option (\<lambda>q. Analytics_Block (analytics q)) (findById db i)"
    by (simp add: getAnalytics_single)
next
  assume a: "\<not> id_given qid \<and> id_given (Some u) \<and> \<not> ff"
  define owned where "owned = filter (\<lambda>q. userId q = u) db"
  define a0 where "a0 = \<lparr>totalQrCodes = length owned, totalScans = 0,
               scansByDate = Map.empty, scansByDevice = Map.empty,
               scansByLocation = Map.empty, mostScanned = None\<rparr>"
  define s where "s = fst (foldl aggregate_qr (a0, 0) owned)"
  have n: "mostScanned a0 = None" and z: "totalScans a0 = 0" by (simp_all add: a0_def)
  have g: "getAnalytics ff qid (Some u) db = Some (Analytics_Summary s)"
    using a getAnalytics_user [of qid u ff db] by (simp add: s_def a0_def owned_def)
  have p1: "totalQrCodes s = length owned"
    by (simp add: s_def totalQrCodes_aggregate a0_def)
  have p2: "totalScans s = sum_list (map (\<lambda>q. scanCount (analytics q)) owned)"
    by (simp add: s_def totalScans_aggregate a0_def)
  have p3: "mostScanned s = None \<longleftrightarrow> (\<forall>q \<in> set owned. scanCount (analytics q) \<le> 0)"
    unfolding s_def by (rule mostScanned_None_iff [OF n])
  have p4: "\<forall>m. mostScanned s = Some m \<longrightarrow>
                (\<exists>pre q post. owned = pre @ q # post
                   \<and> m = most_scanned_of q \<and> 0 < scanCount (analytics q)
                   \<and> (\<forall>x \<in> set pre. scanCount (analytics x) < scanCount (analytics q))
                   \<and> (\<forall>x \<in> set post. scanCount (analytics x) \<le> scanCount (analytics q)))"
  proof (intro allI impI)
    fix m
    assume "mostScanned s = Some m"
    then have "mostScanned (fst (foldl aggregate_qr (a0, 0) owned)) = Some m"
      by (simp add: s_def)
    from mostScanned_Some [OF n this]
    show "\<exists>pre q post. owned = pre @ q # post
                   \<and> m = most_scanned_of q \<and> 0 < scanCount (analytics q)
                   \<and> (\<forall>x \<in> set pre. scanCount (analytics x) < scanCount (analytics q))
                   \<and> (\<forall>x \<in> set post. scanCount (analytics x) \<le> scanCount (analytics q))"
      by blast
  qed
  have p6: "\<forall>k. scansByLocation s k =
                (let ls = concat (map (\<lambda>q. scanLocations (analytics q)) owned)
                 in if k \<in> (\<lambda>l. or_unknown (loc_country l)) ` set ls
                    then Some (int (length (filter (\<lambda>l. or_unknown (loc_country l) = k) ls)))
                    else None)"
    by (simp add: s_def scansByLocation_aggregate foldl_count_location a0_def entry_def Let_def)
  have p7: "\<forall>q1 q2 q3. owned = [q1, q2, q3]
                \<and> scanCount (analytics q1) = 5 \<and> scanCount (analytics q2) = 12
                \<and> scanCount (analytics q3) = 3 \<longrightarrow>
                  totalScans s = 20 \<and> mostScanned s = Some (most_scanned_of q2)"
  proof (intro allI impI)
    fix q1 q2 q3
    assume h: "owned = [q1, q2, q3]
                \<and> scanCount (analytics q1) = 5 \<and> scanCount (analytics q2) = 12
                \<and> scanCount (analytics q3) = 3"
    then have o: "owned = [q1, q2, q3]" and c: "scanCount (analytics q1) = 5"
      "scanCount (analytics q2) = 12" "scanCount (analytics q3) = 3" by blast+
    show "totalScans s = 20 \<and> mostScanned s = Some (most_scanned_of q2)"
      unfolding s_def o by (rule three_scans [OF n z c])
  qed
  show "\<exists>s. getAnalytics ff qid (Some u) db = Some (Analytics_Summary s)
           \<and> totalQrCodes s = length (filter (\<lambda>q. userId q = u) db)
           \<and> totalScans s
               = sum_list (map (\<lambda>q. scanCount (analytics q)) (filter (\<lambda>q. userId q = u) db))
           \<and> (mostScanned s = None \<longleftrightarrow>
                (\<forall>q \<in> set (filter (\<lambda>q. userId q = u) db). scanCount (analytics q) \<le> 0))
           \<and> (\<forall>m. mostScanned s = Some m \<longrightarrow>
                (\<exists>pre q post. filter (\<lambda>q. userId q = u) db = pre @ q # post
                   \<and> m = most_scanned_of q \<and> 0 < scanCount (analytics q)
                   \<and> (\<forall>x \<in> set pre. scanCount (analytics x) < scanCount (analytics q))
                   \<and> (\<forall>x \<in> set post. scanCount (analytics x) \<le> scanCount (analytics q))))
           \<and> (\<forall>k. scansByLocation s k =
                (let ls = concat (map (\<lambda>q. scanLocations (analytics q))
                                   (filter (\<lambda>q. userId q = u) db))
                 in if k \<in> (\<lambda>l. or_unknown (loc_country l)) ` set ls
                    then Some (int (length (filter (\<lambda>l. or_unknown (loc_country l) = k) ls)))
                    else None))
           \<and> (\<forall>q1 q2 q3. filter (\<lambda>q. userId q = u) db = [q1, q2, q3]
                \<and> scanCount (analytics q1) = 5 \<and> scanCount (analytics q2) = 12
                \<and> scanCount (analytics q3) = 3 \<longrightarrow>
                  totalScans s = 20 \<and> mostScanned s = Some (most_scanned_of q2))"
    apply (rule exI [where x = s])
    unfolding owned_def [symmetric]
    apply (intro conjI)
          apply (rule g)
         apply (rule p1)
        apply (rule p2)
       apply (rule p3)
      apply (rule p4)
     apply (rule p6)
    apply (rule p7)
    done
next
  show "or_unknown None = ''Unknown''" by (simp add: or_unknown_def)
  show "or_unknown (Some []) = ''Unknown''" by (simp add: or_unknown_def)
next
  fix c :: string
  assume "c \<noteq> []"
  then show "or_unknown (Some c) = c" by (simp add: or_unknown_def)
qed

theorem getAnalytics_scopes_witness:
  "id_given (Some ''u1'') \<and> \<not> id_given None
   \<and> map_option totalScans (summary_of (getAnalytics False None (Some ''u1'') three_qrs))
       = Some 20
   \<and> map_option mostScanned (summary_of (getAnalytics False None (Some ''u1'') three_qrs))
       = Some (Some \<lparr>ms_id = ''64b7f3a2c1d4e5f6a7b8c9a2'', ms_text = ''https://example.org/a'', ms_scanCount = 12\<rparr>)"
proof -
  have h: "\<not> id_given None \<and> id_given (Some ''u1'') \<and> \<not> False"
    by (simp add: id_given_def)
  note t = getAnalytics_scopes [where qid = None and u = "''u1''" and ff = False
      and db = three_qrs, THEN conjunct2, THEN conjunct2, THEN conjunct1, rule_format, OF h]
  then obtain s where s: "getAnalytics False None (Some ''u1'') three_qrs
                            = Some (Analytics_Summary s)"
    and sc: "\<forall>q1 q2 q3. filter (\<lambda>q. userId q = ''u1'') three_qrs = [q1, q2, q3]
                \<and> scanCount (analytics q1) = 5 \<and> scanCount (analytics q2) = 12
                \<and> scanCount (analytics q3) = 3 \<longrightarrow>
                  totalScans s = 20 \<and> mostScanned s = Some (most_scanned_of q2)"
    by blast
  have f: "filter (\<lambda>q. userId q = ''u1'') three_qrs
             = [scanned_qr ''64b7f3a2c1d4e5f6a7b8c9a1'' 5, scanned_qr ''64b7f3a2c1d4e5f6a7b8c9a2'' 12, scanned_qr ''64b7f3a2c1d4e5f6a7b8c9a3'' 3]
           \<and> scanCount (analytics (scanned_qr ''64b7f3a2c1d4e5f6a7b8c9a1'' 5)) = 5
           \<and> scanCount (analytics (scanned_qr ''64b7f3a2c1d4e5f6a7b8c9a2'' 12)) = 12
           \<and> scanCount (analytics (scanned_qr ''64b7f3a2c1d4e5f6a7b8c9a3'' 3)) = 3"
    by (simp add: three_qrs_def scanned_qr_def example_qr_def)
  from sc [rule_format, OF f]
  have r: "totalScans s = 20" "mostScanned s = Some (most_scanned_of (scanned_qr ''64b7f3a2c1d4e5f6a7b8c9a2'' 12))"
    by simp_all
  have m: "most_scanned_of (scanned_qr ''64b7f3a2c1d4e5f6a7b8c9a2'' 12)
             = \<lparr>ms_id = ''64b7f3a2c1d4e5f6a7b8c9a2'', ms_text = ''https://example.org/a'', ms_scanCount = 12\<rparr>"
    by (simp add: most_scanned_of_def scanned_qr_def example_qr_def)
  show ?thesis using h by (simp add: s r m)
qed

end
